theory Spec2Isabelle
  imports Complex_Main "HOL-Library.Word"
begin

unbundle bit_operations_syntax

section \<open>MapManipulator: a shallow embedding of src/CsApp/MapManipulator.cpp\<close>

text \<open>
  Conventions of the embedding.
  \<^item> \<open>double\<close> and \<open>float\<close> values are real numbers; infinities and NaN are outside the
    model. The arithmetic of the task scheduler (\<open>serviceTask_double\<close>) and of the click
    test (\<open>ndc\<close>, \<open>isMouseClick\<close>) rounds every operation as the machine does, because the
    claims about them depend on it; everywhere else the arithmetic is exact.
  \<^item> \<open>int\<close> is a 32-bit word, compared through \<open>sint\<close> where the source compares.
  \<^item> A \<open>vsg::time_point\<close> is an integer number of nanosecond ticks, the unit in which the
    source's \<open>to_seconds\<close> reads a duration.
  \<^item> Private members lose their leading underscore and get a prefix naming their class
    (\<open>s_\<close> Settings, \<open>a_\<close> Action, \<open>i_\<close> InputSpec, \<open>t_\<close> Task, \<open>m_\<close> MapManipulator).
  \<^item> Everything the manipulator asks of VSG, of the camera and of the geospatial
    services is a field of the record \<open>Env\<close>; nothing is assumed about those fields
    unless a theorem says so.
\<close>

subsection \<open>Vectors and matrices\<close>

type_synonym dvec2 = "real \<times> real"
type_synonym dvec3 = "real \<times> real \<times> real"
type_synonym dquat = "real \<times> real \<times> real \<times> real"
type_synonym dmat4 = "nat \<Rightarrow> nat \<Rightarrow> real"
type_synonym time_point = int

definition vx :: "dvec3 \<Rightarrow> real" where "vx v = fst v"
definition vy :: "dvec3 \<Rightarrow> real" where "vy v = fst (snd v)"
definition vz :: "dvec3 \<Rightarrow> real" where "vz v = snd (snd v)"

definition vadd :: "dvec3 \<Rightarrow> dvec3 \<Rightarrow> dvec3" where
  "vadd a b = (vx a + vx b, vy a + vy b, vz a + vz b)"

definition vsub :: "dvec3 \<Rightarrow> dvec3 \<Rightarrow> dvec3" where
  "vsub a b = (vx a - vx b, vy a - vy b, vz a - vz b)"

definition vscale :: "dvec3 \<Rightarrow> real \<Rightarrow> dvec3" where
  "vscale a k = (vx a * k, vy a * k, vz a * k)"

definition vneg :: "dvec3 \<Rightarrow> dvec3" where
  "vneg a = (- vx a, - vy a, - vz a)"

definition dot :: "dvec3 \<Rightarrow> dvec3 \<Rightarrow> real" where
  "dot a b = vx a * vx b + vy a * vy b + vz a * vz b"

definition cross :: "dvec3 \<Rightarrow> dvec3 \<Rightarrow> dvec3" where
  "cross a b = (vy a * vz b - vz a * vy b, vz a * vx b - vx a * vz b, vx a * vy b - vy a * vx b)"

definition vlength :: "dvec3 \<Rightarrow> real" where
  "vlength a = sqrt (vx a * vx a + vy a * vy a + vz a * vz a)"

text \<open>\<open>vsg::normalize\<close> divides by the length; for the zero vector the model yields zero
  where the source yields NaN.\<close>

definition normalize :: "dvec3 \<Rightarrow> dvec3" where
  "normalize a = (vx a / vlength a, vy a / vlength a, vz a / vlength a)"

definition getXAxis :: "dmat4 \<Rightarrow> dvec3" where
  "getXAxis cf = (cf 0 0, cf 0 1, cf 0 2)"

definition getYAxis :: "dmat4 \<Rightarrow> dvec3" where
  "getYAxis cf = (cf 1 0, cf 1 1, cf 1 2)"

definition getZAxis :: "dmat4 \<Rightarrow> dvec3" where
  "getZAxis cf = (cf 2 0, cf 2 1, cf 2 2)"

definition radians :: "real \<Rightarrow> real" where
  "radians deg = deg * (pi / 180)"

definition to_seconds :: "int \<Rightarrow> real" where
  "to_seconds d = real_of_int d * 0.000000001"

text \<open>\<open>std::chrono::duration_cast<milliseconds>\<close> of a nanosecond count: integer division
  by \<open>10^6\<close> that truncates towards zero.\<close>

definition duration_cast_milliseconds :: "int \<Rightarrow> int" where
  "duration_cast_milliseconds d = sgn d * (\<bar>d\<bar> div 1000000)"

text \<open>C's \<open>fmod x y\<close> is \<open>x - n * y\<close> with \<open>n\<close> the quotient \<open>x / y\<close> truncated towards zero.\<close>

definition fmod :: "real \<Rightarrow> real \<Rightarrow> real" where
  "fmod x y = x - y * of_int (if x / y < 0 then \<lceil>x / y\<rceil> else \<lfloor>x / y\<rfloor>)"

definition normalizeAzimRad :: "real \<Rightarrow> real" where
  "normalizeAzimRad input0 =
     (let input1 = (if \<bar>input0\<bar> > 2 * pi then fmod input0 (2 * pi) else input0);
          input2 = (if input1 < - pi then input1 + pi * 2.0 else input1);
          input3 = (if input2 > pi then input2 - pi * 2.0 else input2)
      in input3)"

text \<open>Modelled from the spec: the helper \<open>clamp\<close> is declared in a header that is not
  among the sources. The spec only says that values are clamped to a lower and an upper
  bound; the model returns the bound that the value violates, the lower bound first.\<close>

definition clamp :: "real \<Rightarrow> real \<Rightarrow> real \<Rightarrow> real" where
  "clamp x lo hi = (if x < lo then lo else if x > hi then hi else x)"

definition DBL_MAX :: real where
  "DBL_MAX = (2 - 1 / 2 ^ 52) * 2 ^ 1023"

subsection \<open>Floating-point rounding\<close>

text \<open>The binary formats of IEEE 754, as far as the task scheduler and the click test need
  them. A format has a precision \<open>p\<close> (53 bits for \<open>double\<close>, 24 for \<open>float\<close>) and a least
  normal exponent \<open>emin\<close> (\<open>-1022\<close> and \<open>-126\<close>). An operation of the source delivers the
  exact result rounded to the nearest number of the format, a tie going to the number
  whose significand is even; below \<open>2^emin\<close> the numbers of the format keep the spacing of the
  least binade (gradual underflow). The exponent has no upper bound here: a result beyond
  the largest finite number of the format is outside the model.\<close>

text \<open>The nearest integer, a tie going to the even one.\<close>

definition round_half_even :: "real \<Rightarrow> int" where
  "round_half_even x =
     (let f = \<lfloor>x\<rfloor>; d = x - of_int f
      in if d < 1 / 2 then f else if 1 / 2 < d then f + 1 else if even f then f else f + 1)"

text \<open>The binade of \<open>x\<close>: the exponent \<open>e\<close> with \<open>2^e \<le> |x| < 2^(e+1)\<close>.\<close>

definition binade :: "real \<Rightarrow> int" where
  "binade x = \<lfloor>log 2 \<bar>x\<bar>\<rfloor>"

text \<open>The spacing of the numbers of the format around \<open>x\<close>.\<close>

definition ulp :: "nat \<Rightarrow> int \<Rightarrow> real \<Rightarrow> real" where
  "ulp p emin x = 2 powr real_of_int (max (binade x) emin - int p + 1)"

definition round_to :: "nat \<Rightarrow> int \<Rightarrow> real \<Rightarrow> real" where
  "round_to p emin x =
     (if x = 0 then 0
      else real_of_int (round_half_even (x / ulp p emin x)) * ulp p emin x)"

definition round_double :: "real \<Rightarrow> real" where
  "round_double = round_to 53 (- 1022)"

definition round_float :: "real \<Rightarrow> real" where
  "round_float = round_to 24 (- 126)"


subsection \<open>Actions\<close>

datatype ActionType =
    ACTION_NULL | ACTION_HOME | ACTION_GOTO
  | ACTION_PAN | ACTION_PAN_LEFT | ACTION_PAN_RIGHT | ACTION_PAN_UP | ACTION_PAN_DOWN
  | ACTION_ROTATE | ACTION_ROTATE_LEFT | ACTION_ROTATE_RIGHT | ACTION_ROTATE_UP | ACTION_ROTATE_DOWN
  | ACTION_ZOOM | ACTION_ZOOM_IN | ACTION_ZOOM_OUT
  | ACTION_EARTH_DRAG | ACTION_TOGGLE_PROJECTION

datatype Direction = DIR_NA | DIR_LEFT | DIR_RIGHT | DIR_UP | DIR_DOWN

datatype ActionOptionType =
    OPTION_SCALE_X | OPTION_SCALE_Y | OPTION_CONTINUOUS | OPTION_SINGLE_AXIS
  | OPTION_GOTO_RANGE_FACTOR | OPTION_DURATION

record ActionOption =
  o_option :: ActionOptionType
  o_boolValue :: bool
  o_intValue :: "32 word"
  o_doubleValue :: real

record Action =
  a_type :: ActionType
  a_dir :: Direction
  a_options :: "ActionOption list"

definition Action_init :: "ActionType \<Rightarrow> Direction" where
  "Action_init ty =
     (if ty = ACTION_PAN_LEFT \<or> ty = ACTION_ROTATE_LEFT then DIR_LEFT
      else if ty = ACTION_PAN_RIGHT \<or> ty = ACTION_ROTATE_RIGHT then DIR_RIGHT
      else if ty = ACTION_PAN_UP \<or> ty = ACTION_ROTATE_UP \<or> ty = ACTION_ZOOM_IN then DIR_UP
      else if ty = ACTION_PAN_DOWN \<or> ty = ACTION_ROTATE_DOWN \<or> ty = ACTION_ZOOM_OUT then DIR_DOWN
      else DIR_NA)"

definition mkAction :: "ActionType \<Rightarrow> ActionOption list \<Rightarrow> Action" where
  "mkAction ty opts = \<lparr>a_type = ty, a_dir = Action_init ty, a_options = opts\<rparr>"

definition NullAction :: Action where
  "NullAction = mkAction ACTION_NULL []"

fun getBoolOption :: "ActionOption list \<Rightarrow> ActionOptionType \<Rightarrow> bool \<Rightarrow> bool" where
  "getBoolOption [] opt defaultValue = defaultValue"
| "getBoolOption (i # rest) opt defaultValue =
     (if o_option i = opt then o_boolValue i else getBoolOption rest opt defaultValue)"

fun getDoubleOption :: "ActionOption list \<Rightarrow> ActionOptionType \<Rightarrow> real \<Rightarrow> real" where
  "getDoubleOption [] opt defaultValue = defaultValue"
| "getDoubleOption (i # rest) opt defaultValue =
     (if o_option i = opt then o_doubleValue i else getDoubleOption rest opt defaultValue)"

subsection \<open>Input specifications and the binding table\<close>

text \<open>The two modifier bits that \<open>getAction\<close> strips, with the values of VSG's
  \<open>vsg::KeyModifier\<close> enumeration. No theorem below depends on the two values.\<close>

definition MODKEY_NumLock :: "32 word" where "MODKEY_NumLock = 16"
definition MODKEY_CapsLock :: "32 word" where "MODKEY_CapsLock = 2"

record InputSpec =
  i_event_type :: "32 word"
  i_input_mask :: "32 word"
  i_modkey_mask :: "32 word"

definition InputSpec_eq :: "InputSpec \<Rightarrow> InputSpec \<Rightarrow> bool" where
  "InputSpec_eq lhs rhs =
     (i_event_type lhs = i_event_type rhs \<and>
      i_input_mask lhs = i_input_mask rhs \<and>
      (i_modkey_mask lhs OR MODKEY_NumLock) = (i_modkey_mask rhs OR MODKEY_NumLock))"

definition InputSpec_less :: "InputSpec \<Rightarrow> InputSpec \<Rightarrow> bool" where
  "InputSpec_less lhs rhs =
     (if sint (i_event_type lhs) < sint (i_event_type rhs) then True
      else if sint (i_event_type lhs) > sint (i_event_type rhs) then False
      else if sint (i_input_mask lhs) < sint (i_input_mask rhs) then True
      else if sint (i_input_mask lhs) > sint (i_input_mask rhs) then False
      else sint (i_modkey_mask lhs) < sint (i_modkey_mask rhs))"

text \<open>\<open>std::map<InputSpec, Action>\<close> is a list of entries kept in key order. Two keys are the
  same key for the map when neither is \<open>operator<\<close> the other; \<open>operator==\<close> plays no part.\<close>

type_synonym ActionBindings = "(InputSpec \<times> Action) list"

fun map_find :: "InputSpec \<Rightarrow> ActionBindings \<Rightarrow> Action option" where
  "map_find k [] = None"
| "map_find k ((k', v) # rest) =
     (if \<not> InputSpec_less k k' \<and> \<not> InputSpec_less k' k then Some v else map_find k rest)"

fun map_assign :: "InputSpec \<Rightarrow> Action \<Rightarrow> ActionBindings \<Rightarrow> ActionBindings" where
  "map_assign k v [] = [(k, v)]"
| "map_assign k v ((k', v') # rest) =
     (if InputSpec_less k k' then (k, v) # (k', v') # rest
      else if InputSpec_less k' k then (k', v') # map_assign k v rest
      else (k', v) # rest)"

record Settings =
  s_bindings :: ActionBindings
  s_single_axis_rotation :: bool
  s_lock_azim_while_panning :: bool
  s_mouse_sens :: real
  s_keyboard_sens :: real
  s_scroll_sens :: real
  s_touch_sens :: real
  s_min_pitch :: real
  s_max_pitch :: real
  s_max_x_offset :: real
  s_max_y_offset :: real
  s_min_distance :: real
  s_max_distance :: real
  s_arc_viewpoints :: bool
  s_auto_vp_duration :: bool
  s_min_vp_duration_s :: real
  s_max_vp_duration_s :: real
  s_orthoTracksPerspective :: bool
  s_terrainAvoidanceEnabled :: bool
  s_terrainAvoidanceMinDistance :: real
  s_throwingEnabled :: bool
  s_throwDecayRate :: real
  s_zoomToMouse :: bool
  s_dirty :: bool

text \<open>The default constructor. The tether mode and the break-tether actions, which no
  modelled operation reads, are left out; \<open>s_dirty\<close> is the flag that \<open>dirty()\<close> raises.\<close>

definition Settings_init :: Settings where
  "Settings_init = \<lparr>
     s_bindings = [],
     s_single_axis_rotation = False,
     s_lock_azim_while_panning = True,
     s_mouse_sens = 1.0,
     s_keyboard_sens = 1.0,
     s_scroll_sens = 1.0,
     s_touch_sens = 0.005,
     s_min_pitch = - 89.9,
     s_max_pitch = - 1.0,
     s_max_x_offset = 0.0,
     s_max_y_offset = 0.0,
     s_min_distance = 1.0,
     s_max_distance = DBL_MAX,
     s_arc_viewpoints = True,
     s_auto_vp_duration = False,
     s_min_vp_duration_s = 3.0,
     s_max_vp_duration_s = 8.0,
     s_orthoTracksPerspective = True,
     s_terrainAvoidanceEnabled = False,
     s_terrainAvoidanceMinDistance = 1.0,
     s_throwingEnabled = False,
     s_throwDecayRate = 0.05,
     s_zoomToMouse = True,
     s_dirty = False \<rparr>"

text \<open>Modelled from the spec: \<open>dirty()\<close> is declared in the missing header; the spec says
  that mutators mark the settings dirty.\<close>

definition dirty :: "Settings \<Rightarrow> Settings" where
  "dirty s = s\<lparr>s_dirty := True\<rparr>"

text \<open>Every modifier branch of \<open>expandSpec\<close> is empty in the source; only the final
  \<open>push_back\<close> acts.\<close>

definition expandSpec :: "InputSpec \<Rightarrow> InputSpec list \<Rightarrow> InputSpec list" where
  "expandSpec input output = output @ [input]"

definition bind :: "Settings \<Rightarrow> InputSpec \<Rightarrow> Action \<Rightarrow> Settings" where
  "bind s spec action =
     s\<lparr>s_bindings := fold (\<lambda>i b. map_assign i action b) (expandSpec spec []) (s_bindings s)\<rparr>"

definition getAction :: "Settings \<Rightarrow> 32 word \<Rightarrow> 32 word \<Rightarrow> 32 word \<Rightarrow> Action" where
  "getAction s event_type input_mask modkey_mask =
     (let spec = \<lparr>i_event_type = event_type, i_input_mask = input_mask,
                  i_modkey_mask = modkey_mask AND NOT MODKEY_NumLock AND NOT MODKEY_CapsLock\<rparr>
      in case map_find spec (s_bindings s) of Some a \<Rightarrow> a | None \<Rightarrow> NullAction)"

definition setMinMaxPitch :: "Settings \<Rightarrow> real \<Rightarrow> real \<Rightarrow> Settings" where
  "setMinMaxPitch s min_pitch max_pitch =
     dirty (s\<lparr>s_min_pitch := clamp min_pitch (- 89.9) 89.0,
              s_max_pitch := clamp max_pitch min_pitch 89.0\<rparr>)"



subsection \<open>Pose, task, events and camera\<close>

record State =
  center :: dvec3
  centerRotation :: dmat4
  localRotation :: dquat
  distance :: real

datatype TaskType = TASK_NONE | TASK_PAN | TASK_ROTATE | TASK_ZOOM

record Task =
  t_type :: TaskType
  t_delta :: dvec2
  t_duration_s :: real
  t_time_last_service :: time_point

text \<open>Modelled from the spec: \<open>Task::set\<close> and \<open>Task::reset\<close> are declared in the missing
  header. The spec describes a task as a type, a rate vector, a remaining duration and a
  last-serviced timestamp, registered by an action handler and destroyed by setting its
  type to none.\<close>

definition Task_set :: "TaskType \<Rightarrow> dvec2 \<Rightarrow> real \<Rightarrow> time_point \<Rightarrow> Task" where
  "Task_set ty d duration now =
     \<lparr>t_type = ty, t_delta = d, t_duration_s = duration, t_time_last_service = now\<rparr>"

definition Task_reset :: "Task \<Rightarrow> Task" where
  "Task_reset t = t\<lparr>t_type := TASK_NONE\<rparr>"

text \<open>A pointer event: window coordinates (\<open>int32_t\<close>, read as integers without
  wrap-around), timestamp, button, button mask and the window it came from.\<close>

record PointerEvent =
  p_x :: int
  p_y :: int
  p_time :: time_point
  p_button :: "32 word"
  p_mask :: "32 word"
  p_window :: nat

text \<open>A key press: \<open>keyModifier\<close> is read as the \<open>int\<close> that \<open>getAction\<close> receives.\<close>

record KeyPressEvent =
  k_keyBase :: "32 word"
  k_keyModifier :: "32 word"
  k_time :: time_point

record ScrollWheelEvent =
  w_delta :: dvec3
  w_time :: time_point

record RenderArea =
  r_offset_x :: int
  r_offset_y :: int
  r_extent_width :: nat
  r_extent_height :: nat

datatype Projection =
    Perspective
  | EllipsoidPerspective
  | Orthographic (o_left: real) (o_right: real) (o_bottom: real) (o_top: real)

record Camera =
  c_viewMatrix :: dmat4
  c_projectionMatrix :: Projection
  c_renderArea :: RenderArea

text \<open>What the manipulator asks of its collaborators. The geospatial services: whether the
  world is geocentric, the two coordinate conversions, the local frame at a point and the
  intersection of a line with the ellipsoid. The scene: the intersections of a segment, each
  a ratio along the segment and a world point. VSG: the inverse of the camera's view
  matrix, the eye and centre that \<open>LookAt::set\<close> decodes from a matrix, the rotation
  matrix of a quaternion, the quaternion of an angle about an axis, the quaternion product,
  and the composition \<open>translate(center) * centerRotation * rotate(localRotation) *
  translate(0, 0, distance)\<close>. The header: \<open>equiv\<close>, and the integer values of the
  enumerators \<open>EVENT_SCROLL\<close> and \<open>Direction\<close>.\<close>

record Env =
  isGeocentric :: bool
  toCartographic :: "dvec3 \<Rightarrow> dvec3"
  toWorld :: "dvec3 \<Rightarrow> dvec3"
  localToWorldMatrix :: "dvec3 \<Rightarrow> dmat4"
  intersectGeocentricLine :: "dvec3 \<Rightarrow> dvec3 \<Rightarrow> dvec3 option"
  hasMapNode :: bool
  lineSegmentIntersections :: "dvec3 \<Rightarrow> dvec3 \<Rightarrow> (real \<times> dvec3) list"
  viewInverse :: "dmat4 \<Rightarrow> dmat4"
  lookAtEye :: "dmat4 \<Rightarrow> dvec3"
  lookAtCenter :: "dmat4 \<Rightarrow> dvec3"
  quatRotate :: "dquat \<Rightarrow> dmat4"
  quatAngleAxis :: "real \<Rightarrow> dvec3 \<Rightarrow> dquat"
  quatMul :: "dquat \<Rightarrow> dquat \<Rightarrow> dquat"
  composeViewMatrix :: "dvec3 \<Rightarrow> dmat4 \<Rightarrow> dquat \<Rightarrow> real \<Rightarrow> dmat4"
  equiv :: "real \<Rightarrow> real \<Rightarrow> bool"
  EVENT_SCROLL :: "32 word"
  directionValue :: "Direction \<Rightarrow> 32 word"

record MapManipulator =
  m_settings :: Settings
  m_state :: State
  m_task :: Task
  m_camera :: Camera
  m_viewMatrix :: dmat4
  m_keyPress :: "KeyPressEvent option"
  m_buttonPress :: "PointerEvent option"
  m_buttonRelease :: "PointerEvent option"
  m_windowOffsets :: "nat \<Rightarrow> (int \<times> int) option"
  m_lastAction :: Action
  m_continuous :: bool
  m_continuousAction :: Action
  m_continuousDelta :: dvec2
  m_last_continuous_action_time :: time_point
  m_homePosition :: dvec3
  m_homeDistance :: real
  m_dirty :: bool

subsection \<open>Pose operations\<close>

definition setCenter :: "Env \<Rightarrow> MapManipulator \<Rightarrow> dvec3 \<Rightarrow> MapManipulator" where
  "setCenter env m worldPos =
     (let mat = localToWorldMatrix env worldPos;
          rot = mat(3 := (mat 3)(0 := 0, 1 := 0, 2 := 0))
      in m\<lparr>m_state := (m_state m)\<lparr>center := worldPos, centerRotation := rot\<rparr>\<rparr>)"

definition setDistance :: "MapManipulator \<Rightarrow> real \<Rightarrow> MapManipulator" where
  "setDistance m d =
     m\<lparr>m_state := (m_state m)\<lparr>distance :=
        clamp d (s_min_distance (m_settings m)) (s_max_distance (m_settings m))\<rparr>\<rparr>"

definition clearEvents :: "MapManipulator \<Rightarrow> bool \<Rightarrow> MapManipulator" where
  "clearEvents m clearKeyPress =
     (let m1 = m\<lparr>m_continuous := False\<rparr>;
          m2 = (if clearKeyPress then m1\<lparr>m_keyPress := None\<rparr> else m1)
      in m2\<lparr>m_buttonPress := None, m_buttonRelease := None,
             m_task := Task_reset (m_task m2), m_dirty := True\<rparr>)"

definition home :: "Env \<Rightarrow> MapManipulator \<Rightarrow> MapManipulator" where
  "home env m =
     (let m1 = m\<lparr>m_state := (m_state m)\<lparr>localRotation := (0, 0, 0, 1)\<rparr>\<rparr>;
          m2 = setCenter env m1 (m_homePosition m1);
          m3 = setDistance m2 (m_homeDistance m2)
      in clearEvents m3 True)"

text \<open>\<open>MapManipulator::intersect\<close>: without a map node there is no hit; otherwise the hits
  are sorted by ratio and the first one is returned. (Among hits of equal ratio
  \<open>std::sort\<close> may put any first; the model keeps their order.)\<close>

definition intersect :: "Env \<Rightarrow> dvec3 \<Rightarrow> dvec3 \<Rightarrow> dvec3 option" where
  "intersect env start end' =
     (if hasMapNode env then
        (case lineSegmentIntersections env start end' of
           [] \<Rightarrow> None
         | h # rest \<Rightarrow> Some (snd (hd (sort_key fst (h # rest)))))
      else None)"

text \<open>\<open>getEulerAngles\<close> called with \<open>out_azim = nullptr\<close>, as \<open>rotate\<close> calls it.\<close>

definition getEulerAngles_pitch :: "Env \<Rightarrow> dquat \<Rightarrow> real" where
  "getEulerAngles_pitch env q =
     (let mat = quatRotate env q;
          look = normalize (vneg (getZAxis mat))
      in arcsin (vz look))"

definition adjustToSameHeight :: "Env \<Rightarrow> dvec3 \<Rightarrow> dvec3 \<Rightarrow> dvec3" where
  "adjustToSameHeight env reference point =
     (let refCarto = toCartographic env reference;
          pointCarto = toCartographic env point;
          newCarto = (vx pointCarto, vy pointCarto, vz refCarto)
      in toWorld env newCarto)"

text \<open>The offset by which \<open>pan\<close> moves the centre (the local \<open>dv\<close>).\<close>

definition pan_dv :: "Env \<Rightarrow> MapManipulator \<Rightarrow> real \<Rightarrow> real \<Rightarrow> dvec3" where
  "pan_dv env m dx dy =
     (let scale = - 0.3 * distance (m_state m);
          lookat = viewInverse env (c_viewMatrix (m_camera m));
          x_axis = normalize (getXAxis lookat);
          y_axis = normalize (cross (getZAxis (centerRotation (m_state m))) x_axis)
      in vadd (vscale (vscale x_axis dx) scale) (vscale (vscale y_axis dy) scale))"

definition pan :: "Env \<Rightarrow> MapManipulator \<Rightarrow> real \<Rightarrow> real \<Rightarrow> MapManipulator" where
  "pan env m dx dy =
     (let dv = pan_dv env m dx dy;
          new_center = vadd (center (m_state m)) dv;
          new_center' = (if isGeocentric env
                         then adjustToSameHeight env (center (m_state m)) new_center
                         else new_center)
      in setCenter env m new_center')"

text \<open>The pitch range test of \<open>rotate\<close>: the value of \<open>dy\<close> after the test, from the
  settings, the decoded old pitch and the requested \<open>dy\<close>.\<close>

definition rotate_dy :: "Settings \<Rightarrow> real \<Rightarrow> real \<Rightarrow> real" where
  "rotate_dy s oldPitch dy =
     (let minp = radians (min (s_min_pitch s) (- 89.9));
          maxp = radians (max (s_max_pitch s) (- 0.1))
      in if dy + oldPitch > maxp \<or> dy + oldPitch < minp then 0 else dy)"

definition rotate :: "Env \<Rightarrow> MapManipulator \<Rightarrow> real \<Rightarrow> real \<Rightarrow> MapManipulator" where
  "rotate env m dx dy =
     (let oldPitch = getEulerAngles_pitch env (localRotation (m_state m));
          dy' = rotate_dy (m_settings m) oldPitch dy;
          rotationFrame = quatRotate env (localRotation (m_state m));
          tangent = getXAxis rotationFrame;
          up = (0, 0, 1);
          rotate_elevation = quatAngleAxis env dy' tangent;
          rotate_azim = quatAngleAxis env (- dx) up
      in m\<lparr>m_state := (m_state m)\<lparr>localRotation :=
            quatMul env (quatMul env (localRotation (m_state m)) rotate_elevation) rotate_azim\<rparr>\<rparr>)"

text \<open>\<open>zoom\<close>: the zoom-to-mouse branch is compiled out, so with that setting on and a
  projection that is not orthographic nothing happens.\<close>

definition zoom :: "MapManipulator \<Rightarrow> real \<Rightarrow> real \<Rightarrow> MapManipulator" where
  "zoom m dx dy =
     (case c_projectionMatrix (m_camera m) of
        Orthographic l r b t \<Rightarrow>
          (let factor = (if dy > 0 then 1.0 / 1.0625 else 1.0625)
           in m\<lparr>m_camera := (m_camera m)\<lparr>c_projectionMatrix :=
                 Orthographic (l * factor) (r * factor) (b * factor) (t * factor)\<rparr>\<rparr>)
      | _ \<Rightarrow>
          (if \<not> s_zoomToMouse (m_settings m)
           then (let scale = 1.0 + dy in setDistance m (distance (m_state m) * scale))
           else m))"

definition recalculateCenterFromLookVector :: "Env \<Rightarrow> MapManipulator \<Rightarrow> bool \<times> MapManipulator" where
  "recalculateCenterFromLookVector env m =
     (let inv = viewInverse env (c_viewMatrix (m_camera m));
          eye = lookAtEye env inv;
          look = normalize (vsub (lookAtCenter env inv) eye);
          hit = intersect env eye (vscale (vscale look (distance (m_state m))) 1.5);
          commit = (\<lambda>p. if isGeocentric env
                         then (let len = vlength p;
                                   newCenter = vscale (normalize (center (m_state m))) len
                               in (True, setCenter env m newCenter))
                         else (True, setCenter env m p))
      in case hit of
           Some p \<Rightarrow> commit p
         | None \<Rightarrow>
             (if isGeocentric env then
                (let target = vadd eye (vscale look (10 ^ 10))
                 in case intersectGeocentricLine env eye target of
                      Some p \<Rightarrow> commit p
                    | None \<Rightarrow> (False, m))
              else
                (let P0 = (0, 0, 0); N = (0, 0, 1); L = look; L0 = eye;
                     LdotN = dot L N
                 in if equiv env LdotN 0 then (False, m)
                    else (let D = dot (vsub P0 L0) N / LdotN
                          in if D < 0 then (False, m)
                             else commit (vadd L0 (vscale L D))))))"

subsection \<open>The task scheduler\<close>

text \<open>The part of \<open>serviceTask\<close> that reads and writes the task only: the motion call it
  dispatches (task type with the deltas \<open>dx\<close>, \<open>dy\<close>), if any, and the task afterwards.\<close>

definition serviceTask_step :: "Task \<Rightarrow> time_point \<Rightarrow> (TaskType \<times> real \<times> real) option \<times> Task" where
  "serviceTask_step task now =
     (if t_type task \<noteq> TASK_NONE then
        (let dt = to_seconds (now - t_time_last_service task)
         in if dt > 0.0 then
              (let dt' = min dt (t_duration_s task);
                   dx = fst (t_delta task) * dt';
                   dy = snd (t_delta task) * dt';
                   task1 = task\<lparr>t_duration_s := t_duration_s task - dt',
                                t_time_last_service := now\<rparr>;
                   task2 = (if t_duration_s task1 \<le> 0.0
                            then task1\<lparr>t_type := TASK_NONE\<rparr> else task1)
               in (Some (t_type task, dx, dy), task2))
            else (None, task))
      else (None, task))"

text \<open>\<open>serviceTask\<close>: the motion algorithms do not touch the task, so the task update can
  follow the dispatch as it does in the source.\<close>

definition serviceTask :: "Env \<Rightarrow> MapManipulator \<Rightarrow> time_point \<Rightarrow> bool \<times> MapManipulator" where
  "serviceTask env m now =
     (case serviceTask_step (m_task m) now of
        (call, task') \<Rightarrow>
          (let m1 = (case call of
                       None \<Rightarrow> m
                     | Some (ty, dx, dy) \<Rightarrow>
                         (case ty of
                            TASK_PAN \<Rightarrow> pan env m dx dy
                          | TASK_ROTATE \<Rightarrow> rotate env m dx dy
                          | TASK_ZOOM \<Rightarrow> zoom m dx dy
                          | TASK_NONE \<Rightarrow> m));
               m2 = m1\<lparr>m_task := task'\<rparr>
           in (t_type (m_task m2) \<noteq> TASK_NONE, m2)))"







subsection \<open>Event handling\<close>

definition cameraRenderAreaCoordinates :: "MapManipulator \<Rightarrow> PointerEvent \<Rightarrow> int \<times> int" where
  "cameraRenderAreaCoordinates m pointerEvent =
     (case m_windowOffsets m (p_window pointerEvent) of
        Some (ox, oy) \<Rightarrow> (p_x pointerEvent + ox, p_y pointerEvent + oy)
      | None \<Rightarrow> (p_x pointerEvent, p_y pointerEvent))"

definition handleMovementAction :: "Env \<Rightarrow> MapManipulator \<Rightarrow> ActionType \<Rightarrow> dvec2 \<Rightarrow> MapManipulator" where
  "handleMovementAction env m ty d =
     (case ty of
        ACTION_PAN \<Rightarrow> pan env m (fst d) (snd d)
      | ACTION_ROTATE \<Rightarrow>
          (let d' = (if m_continuous m \<and> s_single_axis_rotation (m_settings m)
                     then (if \<bar>fst d\<bar> > \<bar>snd d\<bar> then (fst d, 0.0) else (0.0, snd d))
                     else d)
           in rotate env m (fst d') (snd d'))
      | ACTION_ZOOM \<Rightarrow> zoom m (fst d) (snd d)
      | _ \<Rightarrow> m)"

definition handleContinuousAction :: "Env \<Rightarrow> MapManipulator \<Rightarrow> Action \<Rightarrow> time_point \<Rightarrow> MapManipulator" where
  "handleContinuousAction env m action time =
     (let t_factor = to_seconds (time - m_last_continuous_action_time m) * 60.0;
          m1 = m\<lparr>m_last_continuous_action_time := time\<rparr>
      in handleMovementAction env m1 (a_type action)
           (fst (m_continuousDelta m1) * t_factor, snd (m_continuousDelta m1) * t_factor))"

definition applyOptionsToDeltas :: "Action \<Rightarrow> dvec2 \<Rightarrow> dvec2" where
  "applyOptionsToDeltas action d =
     (let dx = fst d * getDoubleOption (a_options action) OPTION_SCALE_X 1.0;
          dy = snd d * getDoubleOption (a_options action) OPTION_SCALE_Y 1.0
      in if getBoolOption (a_options action) OPTION_SINGLE_AXIS False = True
         then (if \<bar>dx\<bar> > \<bar>dy\<bar> then (dx, 0.0) else (0.0, dy))
         else (dx, dy))"

definition handleAction ::
  "Env \<Rightarrow> MapManipulator \<Rightarrow> Action \<Rightarrow> dvec2 \<Rightarrow> time_point \<Rightarrow> real \<Rightarrow> bool \<times> MapManipulator" where
  "handleAction env m action d time duration =
     (let ty = a_type action
      in if ty = ACTION_HOME then (True, home env m)
         else if ty = ACTION_PAN \<or> ty = ACTION_PAN_LEFT \<or> ty = ACTION_PAN_RIGHT \<or>
                 ty = ACTION_PAN_UP \<or> ty = ACTION_PAN_DOWN
         then (True, m\<lparr>m_task := Task_set TASK_PAN d duration time\<rparr>)
         else if ty = ACTION_ROTATE \<or> ty = ACTION_ROTATE_LEFT \<or> ty = ACTION_ROTATE_RIGHT \<or>
                 ty = ACTION_ROTATE_UP \<or> ty = ACTION_ROTATE_DOWN
         then (True, m\<lparr>m_task := Task_set TASK_ROTATE d duration time\<rparr>)
         else if ty = ACTION_ZOOM \<or> ty = ACTION_ZOOM_IN \<or> ty = ACTION_ZOOM_OUT
         then (True, m\<lparr>m_task := Task_set TASK_ZOOM d duration time\<rparr>)
         else (False, m))"

definition handleScrollAction ::
  "Env \<Rightarrow> MapManipulator \<Rightarrow> Action \<Rightarrow> time_point \<Rightarrow> real \<Rightarrow> bool \<times> MapManipulator" where
  "handleScrollAction env m action time duration =
     (let scrollFactor = 1.5;
          d0 = (case a_dir action of
                  DIR_LEFT \<Rightarrow> (1, 0.0)
                | DIR_RIGHT \<Rightarrow> (- 1, 0.0)
                | DIR_UP \<Rightarrow> (0.0, - 1)
                | DIR_DOWN \<Rightarrow> (0.0, 1)
                | DIR_NA \<Rightarrow> (0.0, 0.0));
          d1 = (fst d0 * (scrollFactor * s_scroll_sens (m_settings m)),
                snd d0 * (scrollFactor * s_scroll_sens (m_settings m)));
          d2 = applyOptionsToDeltas action d1
      in handleAction env m action d2 time duration)"

definition bindScroll ::
  "Env \<Rightarrow> Settings \<Rightarrow> ActionType \<Rightarrow> Direction \<Rightarrow> 32 word \<Rightarrow> ActionOption list \<Rightarrow> Settings" where
  "bindScroll env s action scrolling_direction modkey_mask options =
     bind s \<lparr>i_event_type = EVENT_SCROLL env,
             i_input_mask = directionValue env scrolling_direction,
             i_modkey_mask = modkey_mask\<rparr>
       (mkAction action options)"

definition apply_ScrollWheelEvent :: "Env \<Rightarrow> MapManipulator \<Rightarrow> ScrollWheelEvent \<Rightarrow> MapManipulator" where
  "apply_ScrollWheelEvent env m scrollEvent =
     (let dir = (if vx (w_delta scrollEvent) < 0 then DIR_LEFT
                 else if vx (w_delta scrollEvent) > 0 then DIR_RIGHT
                 else if vy (w_delta scrollEvent) < 0 then DIR_UP
                 else if vy (w_delta scrollEvent) > 0 then DIR_DOWN
                 else DIR_NA);
          lastAction = getAction (m_settings m) (EVENT_SCROLL env) (directionValue env dir)
                         (case m_keyPress m of Some k \<Rightarrow> k_keyModifier k | None \<Rightarrow> 0);
          m1 = m\<lparr>m_lastAction := lastAction\<rparr>
      in snd (handleScrollAction env m1 lastAction (w_time scrollEvent)
                (getDoubleOption (a_options lastAction) OPTION_DURATION 0.2)))"

definition apply_FrameEvent :: "Env \<Rightarrow> MapManipulator \<Rightarrow> time_point \<Rightarrow> MapManipulator" where
  "apply_FrameEvent env m time =
     (let m1 = (if m_continuous m
                then handleContinuousAction env m (m_continuousAction m) time
                else m\<lparr>m_continuousDelta := (0.0, 0.0)\<rparr>);
          m2 = snd (serviceTask env m1 time);
          view = composeViewMatrix env (center (m_state m2)) (centerRotation (m_state m2))
                   (localRotation (m_state m2)) (distance (m_state m2));
          m3 = m2\<lparr>m_viewMatrix := view\<rparr>
      in m3\<lparr>m_camera := (m_camera m3)\<lparr>c_viewMatrix := view\<rparr>, m_dirty := False\<rparr>)"

subsection \<open>A concrete environment and manipulator for the examples\<close>

definition identity_matrix :: dmat4 where
  "identity_matrix c r = (if c = r then 1 else 0)"

definition example_directionValue :: "Direction \<Rightarrow> 32 word" where
  "example_directionValue d =
     (case d of DIR_NA \<Rightarrow> 0 | DIR_LEFT \<Rightarrow> 1 | DIR_RIGHT \<Rightarrow> 2 | DIR_UP \<Rightarrow> 3 | DIR_DOWN \<Rightarrow> 4)"

text \<open>A flat world with an empty scene, whose cartographic coordinates are the world
  coordinates. The camera's view matrix is its own inverse's stand-in, the eye is the
  translation column and the camera looks down its negative z axis. The quaternion
  operations, which no example reaches, are trivial.\<close>

definition example_env :: Env where
  "example_env = \<lparr>
     isGeocentric = False,
     toCartographic = (\<lambda>p. p),
     toWorld = (\<lambda>p. p),
     localToWorldMatrix = (\<lambda>p. identity_matrix),
     intersectGeocentricLine = (\<lambda>a b. None),
     hasMapNode = False,
     lineSegmentIntersections = (\<lambda>a b. []),
     viewInverse = (\<lambda>mat. mat),
     lookAtEye = (\<lambda>mat. (mat 3 0, mat 3 1, mat 3 2)),
     lookAtCenter = (\<lambda>mat. (mat 3 0 - mat 2 0, mat 3 1 - mat 2 1, mat 3 2 - mat 2 2)),
     quatRotate = (\<lambda>q. identity_matrix),
     quatAngleAxis = (\<lambda>angle axis. (0, 0, 0, 1)),
     quatMul = (\<lambda>p q. p),
     composeViewMatrix = (\<lambda>c rot q d. identity_matrix),
     equiv = (\<lambda>a b. \<bar>a - b\<bar> \<le> 1 / 10 ^ 6),
     EVENT_SCROLL = 3,
     directionValue = example_directionValue \<rparr>"

definition example_manipulator :: MapManipulator where
  "example_manipulator = \<lparr>
     m_settings = Settings_init\<lparr>s_zoomToMouse := False\<rparr>,
     m_state = \<lparr>center = (0, 0, 0), centerRotation = identity_matrix,
                 localRotation = (0, 0, 0, 1), distance = 10\<rparr>,
     m_task = Task_set TASK_NONE (0, 0) 0 0,
     m_camera = \<lparr>c_viewMatrix = identity_matrix, c_projectionMatrix = Perspective,
                  c_renderArea = \<lparr>r_offset_x = 0, r_offset_y = 0,
                                   r_extent_width = 800, r_extent_height = 600\<rparr>\<rparr>,
     m_viewMatrix = identity_matrix,
     m_keyPress = None,
     m_buttonPress = None,
     m_buttonRelease = None,
     m_windowOffsets = (\<lambda>w. None),
     m_lastAction = NullAction,
     m_continuous = False,
     m_continuousAction = NullAction,
     m_continuousDelta = (0, 0),
     m_last_continuous_action_time = 0,
     m_homePosition = (0, 0, 0),
     m_homeDistance = 35,
     m_dirty = False \<rparr>"

definition example_press :: PointerEvent where
  "example_press = \<lparr>p_x = 100, p_y = 100, p_time = 0, p_button = 1, p_mask = 256, p_window = 0\<rparr>"

definition example_scroll_manipulator :: "real \<Rightarrow> MapManipulator" where
  "example_scroll_manipulator d =
     example_manipulator
       \<lparr>m_settings := bindScroll example_env (m_settings example_manipulator)
                        ACTION_ZOOM_IN DIR_UP 0 [],
        m_state := (m_state example_manipulator)\<lparr>distance := d\<rparr>\<rparr>"

definition example_scroll_up :: ScrollWheelEvent where
  "example_scroll_up = \<lparr>w_delta = (0, - 1, 0), w_time = 0\<rparr>"





section \<open>Properties\<close>

subsection \<open>Azimuth normalisation\<close>

lemma fmod_abs_less:
  assumes "0 < y"
  shows "\<bar>fmod x y\<bar> < y"
proof -
  define q where "q = x / y"
  define t :: int where "t = (if q < 0 then \<lceil>q\<rceil> else \<lfloor>q\<rfloor>)"
  have x: "x = y * q" using assms by (simp add: q_def)
  have "\<bar>q - of_int t\<bar> < 1"
    unfolding t_def by (auto simp: abs_if; linarith)
  then have "y * \<bar>q - of_int t\<bar> < y * 1"
    using assms by (simp only: mult_less_cancel_left_pos)
  moreover have "fmod x y = y * (q - of_int t)"
    by (simp add: fmod_def q_def[symmetric] t_def x algebra_simps)
  ultimately show ?thesis using assms by (simp add: abs_mult)
qed

lemma fmod_3pi: "fmod (3 * pi) (2 * pi) = pi"
proof -
  have "(3 * pi) / (2 * pi) = 3 / 2" by simp
  then show ?thesis unfolding fmod_def by simp
qed

lemma fmod_neg_3pi: "fmod (- (3 * pi)) (2 * pi) = - pi"
proof -
  have "(- (3 * pi)) / (2 * pi) = - (3 / 2)" by simp
  then show ?thesis unfolding fmod_def by simp
qed

lemma normalizeAzimRad_bounds: "- pi \<le> normalizeAzimRad x \<and> normalizeAzimRad x \<le> pi"
proof -
  have "\<bar>fmod x (2 * pi)\<bar> < 2 * pi" by (rule fmod_abs_less) simp
  then show ?thesis
    unfolding normalizeAzimRad_def Let_def by (auto simp: abs_if split: if_splits)
qed

lemma normalizeAzimRad_3pi: "normalizeAzimRad (3 * pi) = pi"
  using pi_gt_zero by (simp add: normalizeAzimRad_def Let_def fmod_3pi)

lemma normalizeAzimRad_neg_3pi: "normalizeAzimRad (- (3 * pi)) = - pi"
  using pi_gt_zero by (simp add: normalizeAzimRad_def Let_def fmod_neg_3pi)

text \<open>
  C2, as stated, fails: the claim sends \<open>-3\<pi>\<close> to \<open>\<pi>\<close> and puts every result in the half-open
  interval \<open>(-\<pi>, \<pi>]\<close>. The source reduces \<open>-3\<pi>\<close> to \<open>-\<pi>\<close> with \<open>fmod\<close>, and the test
  \<open>input < -M_PI\<close> is strict, so \<open>-\<pi>\<close> is returned as it is.
\<close>

theorem normalizeAzimRad_neg_3pi_counterexample:
  "normalizeAzimRad (- (3 * pi)) \<noteq> pi \<and> \<not> (- pi < normalizeAzimRad (- (3 * pi)))"
  using pi_gt_zero by (simp add: normalizeAzimRad_neg_3pi)

text \<open>
  C2, amended: \<open>normalizeAzimRad\<close> maps every real input into the closed interval
  \<open>[-\<pi>, \<pi>]\<close>; input \<open>3\<pi>\<close> maps to \<open>\<pi>\<close>, and input \<open>-3\<pi>\<close> maps to \<open>-\<pi>\<close>, which is returned
  unwrapped.
\<close>

theorem normalizeAzimRad_closed_range:
  "- pi \<le> normalizeAzimRad x \<and> normalizeAzimRad x \<le> pi \<and>
   normalizeAzimRad (3 * pi) = pi \<and> normalizeAzimRad (- (3 * pi)) = - pi"
  using normalizeAzimRad_bounds [of x] normalizeAzimRad_3pi normalizeAzimRad_neg_3pi
  by simp

subsection \<open>Settings mutators\<close>




subsection \<open>The binding table\<close>

lemma InputSpec_less_irrefl: "\<not> InputSpec_less a a"
  by (simp add: InputSpec_less_def)

lemma InputSpec_less_equiv:
  "(\<not> InputSpec_less a b \<and> \<not> InputSpec_less b a) = (a = b)"
proof (cases "a = b")
  case True then show ?thesis by (simp add: InputSpec_less_irrefl)
next
  case False
  then have "sint (i_event_type a) \<noteq> sint (i_event_type b) \<or>
             sint (i_input_mask a) \<noteq> sint (i_input_mask b) \<or>
             sint (i_modkey_mask a) \<noteq> sint (i_modkey_mask b)"
    by (cases a; cases b) (auto simp: signed_word_eqI)
  then show ?thesis using False by (auto simp: InputSpec_less_def)
qed

lemma map_find_assign_same: "map_find k (map_assign k v xs) = Some v"
  by (induction xs) (auto simp: InputSpec_less_irrefl)

lemma map_find_assign_other: "k \<noteq> k' \<Longrightarrow> map_find k (map_assign k' v xs) = map_find k xs"
proof (induction xs)
  case Nil
  then show ?case using InputSpec_less_equiv [of k k'] by auto
next
  case (Cons p xs)
  obtain k'' v'' where p: "p = (k'', v'')" by (cases p)
  show ?case using Cons InputSpec_less_equiv [of k k'] InputSpec_less_equiv [of k' k'']
      InputSpec_less_equiv [of k k'']
    by (auto simp: p)
qed

lemma map_find_None: "(map_find k xs = None) = (k \<notin> fst ` set xs)"
proof (induction xs)
  case Nil
  show ?case by simp
next
  case (Cons p xs)
  obtain k' v' where p: "p = (k', v')" by (cases p)
  show ?case using Cons InputSpec_less_equiv [of k k'] by (auto simp: p)
qed

lemma strip_locks:
  fixes m :: "32 word"
  shows "m AND NOT a AND NOT b = m AND NOT (a OR b)"
  by (simp add: bit_eq_iff bit_simps) 

lemma strip_clean:
  fixes m :: "32 word"
  assumes "m AND x = 0" shows "m AND NOT x = m"
proof (rule bit_eqI)
  fix n
  have "\<not> bit (m AND x) n" using assms by simp
  then show "bit (m AND NOT x) n = bit m n"
    by (auto simp: bit_simps dest: bit_imp_le_length)
qed

lemma strip_dirty:
  fixes m :: "32 word"
  assumes "m AND x \<noteq> 0" shows "m' AND NOT x \<noteq> m"
proof
  assume "m' AND NOT x = m"
  then have "m AND x = (m' AND NOT x) AND x" by simp
  also have "\<dots> = 0" by (simp add: bit_eq_iff bit_simps)
  finally show False using assms by simp
qed

lemma bind_bindings:
  "s_bindings (bind s spec a) = map_assign spec a (s_bindings s)"
  by (simp add: bind_def expandSpec_def)

text \<open>
  C5: a binding registered under a modifier mask \<open>m0\<close> with Num Lock and Caps Lock clear is
  returned by \<open>getAction\<close> for every mask \<open>m\<close> that differs from \<open>m0\<close> only in those two
  bits; more generally two query masks that differ only in those bits get the same answer
  from any settings; and when no entry of the table has the key (event type, input mask,
  stripped modifier mask), the answer is the null action, whose type is \<open>ACTION_NULL\<close>.
\<close>

theorem getAction_ignores_lock_bits:
  "(m0 AND (MODKEY_NumLock OR MODKEY_CapsLock) = 0 \<and>
    m AND NOT (MODKEY_NumLock OR MODKEY_CapsLock) = m0 AND NOT (MODKEY_NumLock OR MODKEY_CapsLock)
      \<longrightarrow> getAction (bind s \<lparr>i_event_type = e, i_input_mask = i, i_modkey_mask = m0\<rparr> a) e i m = a) \<and>
   (m AND NOT (MODKEY_NumLock OR MODKEY_CapsLock) = m' AND NOT (MODKEY_NumLock OR MODKEY_CapsLock)
      \<longrightarrow> getAction s e i m = getAction s e i m') \<and>
   (\<lparr>i_event_type = e, i_input_mask = i,
      i_modkey_mask = m AND NOT (MODKEY_NumLock OR MODKEY_CapsLock)\<rparr> \<notin> fst ` set (s_bindings s)
      \<longrightarrow> getAction s e i m = NullAction) \<and>
   a_type NullAction = ACTION_NULL"
proof (intro conjI impI)
  assume h: "m0 AND (MODKEY_NumLock OR MODKEY_CapsLock) = 0 \<and>
    m AND NOT (MODKEY_NumLock OR MODKEY_CapsLock) = m0 AND NOT (MODKEY_NumLock OR MODKEY_CapsLock)"
  then have "m AND NOT MODKEY_NumLock AND NOT MODKEY_CapsLock = m0"
    by (simp only: strip_locks strip_clean)
  then show "getAction (bind s \<lparr>i_event_type = e, i_input_mask = i, i_modkey_mask = m0\<rparr> a) e i m = a"
    by (simp add: getAction_def bind_bindings map_find_assign_same)
next
  assume "m AND NOT (MODKEY_NumLock OR MODKEY_CapsLock) = m' AND NOT (MODKEY_NumLock OR MODKEY_CapsLock)"
  then show "getAction s e i m = getAction s e i m'"
    by (simp only: getAction_def strip_locks)
next
  assume "\<lparr>i_event_type = e, i_input_mask = i,
      i_modkey_mask = m AND NOT (MODKEY_NumLock OR MODKEY_CapsLock)\<rparr> \<notin> fst ` set (s_bindings s)"
  then have "map_find \<lparr>i_event_type = e, i_input_mask = i,
      i_modkey_mask = m AND NOT MODKEY_NumLock AND NOT MODKEY_CapsLock\<rparr> (s_bindings s) = None"
    by (simp only: map_find_None strip_locks not_False_eq_True)
  then show "getAction s e i m = NullAction"
    by (simp add: getAction_def)
next
  show "a_type NullAction = ACTION_NULL"
    by (simp add: NullAction_def mkAction_def)
qed

text \<open>Witness for C5: a binding under Control (mask 4), queried with Control, Num Lock and
  Caps Lock (mask 22); and a miss on the empty default table.\<close>

theorem getAction_ignores_lock_bits_witness:
  "((4 :: 32 word) AND (MODKEY_NumLock OR MODKEY_CapsLock) = 0 \<and>
    (22 :: 32 word) AND NOT (MODKEY_NumLock OR MODKEY_CapsLock)
       = 4 AND NOT (MODKEY_NumLock OR MODKEY_CapsLock)) \<and>
   getAction (bind Settings_init \<lparr>i_event_type = 3, i_input_mask = 1, i_modkey_mask = 4\<rparr>
                (mkAction ACTION_ZOOM_IN [])) 3 1 22 = mkAction ACTION_ZOOM_IN [] \<and>
   getAction Settings_init 3 1 22 = getAction Settings_init 3 1 4 \<and>
   \<lparr>i_event_type = 3, i_input_mask = 1,
      i_modkey_mask = 22 AND NOT (MODKEY_NumLock OR MODKEY_CapsLock)\<rparr>
      \<notin> fst ` set (s_bindings Settings_init) \<and>
   getAction Settings_init 3 1 22 = NullAction"
proof -
  have h: "(4 :: 32 word) AND (MODKEY_NumLock OR MODKEY_CapsLock) = 0 \<and>
    (22 :: 32 word) AND NOT (MODKEY_NumLock OR MODKEY_CapsLock)
       = 4 AND NOT (MODKEY_NumLock OR MODKEY_CapsLock)"
    by (simp add: MODKEY_NumLock_def MODKEY_CapsLock_def)
  have e: "\<lparr>i_event_type = 3, i_input_mask = 1,
      i_modkey_mask = 22 AND NOT (MODKEY_NumLock OR MODKEY_CapsLock)\<rparr>
      \<notin> fst ` set (s_bindings Settings_init)"
    by (simp add: Settings_init_def)
  from h e getAction_ignores_lock_bits [of 4 22 Settings_init 3 1 "mkAction ACTION_ZOOM_IN []" 4]
  show ?thesis by blast
qed

text \<open>
  C10: a binding whose modifier mask has the Num Lock or the Caps Lock bit set is
  unreachable. \<open>getAction\<close> clears both bits of the query and the map compares raw masks,
  so binding such a spec changes the answer of no query whatever, although the binding is
  stored in the table under its own key, and although \<open>operator==\<close> identifies a spec
  with the same spec without its Num Lock bit.
\<close>

theorem getAction_never_reaches_lock_binding:
  "(i_modkey_mask spec AND (MODKEY_NumLock OR MODKEY_CapsLock) \<noteq> 0
      \<longrightarrow> getAction (bind s spec a) e i m = getAction s e i m) \<and>
   map_find spec (s_bindings (bind s spec a)) = Some a \<and>
   InputSpec_eq spec (spec\<lparr>i_modkey_mask := i_modkey_mask spec AND NOT MODKEY_NumLock\<rparr>)"
proof (intro conjI impI)
  assume h: "i_modkey_mask spec AND (MODKEY_NumLock OR MODKEY_CapsLock) \<noteq> 0"
  have "m AND NOT (MODKEY_NumLock OR MODKEY_CapsLock) \<noteq> i_modkey_mask spec"
    using h by (rule strip_dirty)
  then have "\<lparr>i_event_type = e, i_input_mask = i,
      i_modkey_mask = m AND NOT MODKEY_NumLock AND NOT MODKEY_CapsLock\<rparr> \<noteq> spec"
    by (simp only: strip_locks InputSpec.iffs simp_thms) (cases spec, simp)
  then show "getAction (bind s spec a) e i m = getAction s e i m"
    by (simp add: getAction_def bind_bindings map_find_assign_other)
next
  show "map_find spec (s_bindings (bind s spec a)) = Some a"
    by (simp add: bind_bindings map_find_assign_same)
next
  show "InputSpec_eq spec (spec\<lparr>i_modkey_mask := i_modkey_mask spec AND NOT MODKEY_NumLock\<rparr>)"
    by (auto simp: InputSpec_eq_def bit_eq_iff bit_simps)
qed

text \<open>Witness for C10: a binding under Num Lock (mask 16) on the default settings is found
  neither by the query with mask 16 nor by the query with mask 0.\<close>

theorem getAction_never_reaches_lock_binding_witness:
  "(16 :: 32 word) AND (MODKEY_NumLock OR MODKEY_CapsLock) \<noteq> 0 \<and>
   getAction (bind Settings_init \<lparr>i_event_type = 3, i_input_mask = 1, i_modkey_mask = 16\<rparr>
                (mkAction ACTION_ZOOM_IN [])) 3 1 16 = NullAction \<and>
   getAction (bind Settings_init \<lparr>i_event_type = 3, i_input_mask = 1, i_modkey_mask = 16\<rparr>
                (mkAction ACTION_ZOOM_IN [])) 3 1 0 = NullAction"
proof -
  have h: "(16 :: 32 word) AND (MODKEY_NumLock OR MODKEY_CapsLock) \<noteq> 0"
    by (simp add: MODKEY_NumLock_def MODKEY_CapsLock_def)
  have n: "getAction Settings_init e i m = NullAction" for e i m
    by (simp add: getAction_def Settings_init_def)
  show ?thesis
    using h n
      getAction_never_reaches_lock_binding [of "\<lparr>i_event_type = 3, i_input_mask = 1, i_modkey_mask = 16\<rparr>"
        Settings_init "mkAction ACTION_ZOOM_IN []" 3 1 16]
      getAction_never_reaches_lock_binding [of "\<lparr>i_event_type = 3, i_input_mask = 1, i_modkey_mask = 16\<rparr>"
        Settings_init "mkAction ACTION_ZOOM_IN []" 3 1 0]
    by simp
qed

subsection \<open>Recentering from the look vector\<close>

text \<open>
  C9: in planar mode, when the scene query along the look vector misses and either the
  source's parallel test \<open>equiv(LdotN, 0)\<close> holds (the look ray is parallel to the plane
  \<open>z = 0\<close>) or the intersection parameter \<open>D = -eye.z / look.z\<close> is negative (the plane is
  behind the camera), \<open>recalculateCenterFromLookVector\<close> returns false and the whole
  manipulator, its pose included, is unchanged.
\<close>

theorem recalculateCenterFromLookVector_failure_unchanged:
  assumes "eye = lookAtEye env (viewInverse env (c_viewMatrix (m_camera m)))"
    and "look = normalize (vsub (lookAtCenter env (viewInverse env (c_viewMatrix (m_camera m)))) eye)"
    and "\<not> isGeocentric env"
    and "intersect env eye (vscale (vscale look (distance (m_state m))) 1.5) = None"
    and "equiv env (vz look) 0 \<or> - vz eye / vz look < 0"
  shows "recalculateCenterFromLookVector env m = (False, m)"
proof -
  have d: "dot look (0, 0, 1) = vz look"
    by (simp add: dot_def vx_def vy_def vz_def)
  have D: "dot (vsub (0, 0, 0) eye) (0, 0, 1) = - vz eye"
    by (simp add: dot_def vsub_def vx_def vy_def vz_def)
  show ?thesis
    using assms(3,4,5)
    unfolding recalculateCenterFromLookVector_def Let_def assms(1)[symmetric] assms(2)[symmetric] d D
    by auto
qed

text \<open>Witness for C9: a camera five units below the plane that looks straight down.\<close>

theorem recalculateCenterFromLookVector_failure_unchanged_witness:
  "\<not> isGeocentric example_env \<and>
   intersect example_env (0, 0, - 5) (vscale (vscale (0, 0, - 1) 10) 1.5) = None \<and>
   - vz (0, 0, - 5 :: real) / vz (0, 0, - 1 :: real) < 0 \<and>
   recalculateCenterFromLookVector example_env
     (example_manipulator\<lparr>m_camera := (m_camera example_manipulator)
        \<lparr>c_viewMatrix := identity_matrix(3 := (identity_matrix 3)(2 := - 5))\<rparr>\<rparr>)
   = (False, example_manipulator\<lparr>m_camera := (m_camera example_manipulator)
        \<lparr>c_viewMatrix := identity_matrix(3 := (identity_matrix 3)(2 := - 5))\<rparr>\<rparr>)"
proof -
  let ?m = "example_manipulator\<lparr>m_camera := (m_camera example_manipulator)
        \<lparr>c_viewMatrix := identity_matrix(3 := (identity_matrix 3)(2 := - 5))\<rparr>\<rparr>"
  have eye: "(0, 0, - 5) = lookAtEye example_env (viewInverse example_env (c_viewMatrix (m_camera ?m)))"
    by (simp add: example_env_def identity_matrix_def)
  have look: "(0, 0, - 1) = normalize (vsub (lookAtCenter example_env
                 (viewInverse example_env (c_viewMatrix (m_camera ?m)))) (0, 0, - 5))"
    by (simp add: example_env_def identity_matrix_def normalize_def vsub_def vlength_def
        vx_def vy_def vz_def)
  have g: "\<not> isGeocentric example_env" by (simp add: example_env_def)
  have i: "intersect example_env (0, 0, - 5) (vscale (vscale (0, 0, - 1) (distance (m_state ?m))) 1.5) = None"
    by (simp add: intersect_def example_env_def)
  have b: "- vz (0, 0, - 5 :: real) / vz (0, 0, - 1 :: real) < 0"
    by (simp add: vz_def)
  have dist: "distance (m_state ?m) = 10" by (simp add: example_manipulator_def)
  from recalculateCenterFromLookVector_failure_unchanged [OF eye look g i disjI2 [OF b]] g i b dist
  show ?thesis by simp
qed

subsection \<open>Scroll zoom\<close>

lemma getAction_bindScroll:
  "getAction (bindScroll env s ty dir 0 opts) (EVENT_SCROLL env) (directionValue env dir) 0
     = mkAction ty opts"
proof -
  have "(0 :: 32 word) AND NOT MODKEY_NumLock AND NOT MODKEY_CapsLock = 0" by simp
  then show ?thesis
    by (simp add: getAction_def bindScroll_def bind_bindings map_find_assign_same)
qed

lemma bindScroll_fields:
  "s_scroll_sens (bindScroll env s ty dir mk opts) = s_scroll_sens s"
  "s_zoomToMouse (bindScroll env s ty dir mk opts) = s_zoomToMouse s"
  "s_min_distance (bindScroll env s ty dir mk opts) = s_min_distance s"
  "s_max_distance (bindScroll env s ty dir mk opts) = s_max_distance s"
  by (simp_all add: bindScroll_def bind_def)

lemma mkAction_sel:
  "a_type (mkAction ty opts) = ty"
  "a_dir (mkAction ty opts) = Action_init ty"
  "a_options (mkAction ty opts) = opts"
  by (simp_all add: mkAction_def)

lemma scroll_up_registers_zoom:
  assumes "m_settings m = bindScroll env s0 ACTION_ZOOM_IN DIR_UP 0 []"
    and "(case m_keyPress m of Some k \<Rightarrow> k_keyModifier k | None \<Rightarrow> 0) = 0"
    and "w_delta ev = (0, - 1, z)"
  shows "apply_ScrollWheelEvent env m ev =
           m\<lparr>m_lastAction := mkAction ACTION_ZOOM_IN [],
              m_task := Task_set TASK_ZOOM (0, - (1.5 * s_scroll_sens s0)) 0.2 (w_time ev)\<rparr>"
proof -
  have dir: "(if vx (w_delta ev) < 0 then DIR_LEFT
                 else if vx (w_delta ev) > 0 then DIR_RIGHT
                 else if vy (w_delta ev) < 0 then DIR_UP
                 else if vy (w_delta ev) > 0 then DIR_DOWN
                 else DIR_NA) = DIR_UP"
    by (simp add: assms(3) vx_def vy_def)
  have act: "getAction (m_settings m) (EVENT_SCROLL env) (directionValue env DIR_UP)
               (case m_keyPress m of Some k \<Rightarrow> k_keyModifier k | None \<Rightarrow> 0)
             = mkAction ACTION_ZOOM_IN []"
    by (simp only: assms(1,2) getAction_bindScroll)
  have hs: "handleScrollAction env m' (mkAction ACTION_ZOOM_IN []) t dur
              = (True, m'\<lparr>m_task := Task_set TASK_ZOOM (0, - (1.5 * s_scroll_sens (m_settings m'))) dur t\<rparr>)"
    for m' t dur
    by (simp add: handleScrollAction_def handleAction_def applyOptionsToDeltas_def mkAction_sel
        Action_init_def Let_def)
  show ?thesis
    unfolding apply_ScrollWheelEvent_def Let_def dir act
    by (simp add: hs mkAction_sel assms(1) bindScroll_fields)
qed

lemma zoom_tick:
  assumes "t_type (m_task m) = TASK_ZOOM" and "t_delta (m_task m) = (0, - 1.5)"
    and "t_duration_s (m_task m) = 0.2"
    and "now = t_time_last_service (m_task m) + 100000000"
    and "\<not> s_zoomToMouse (m_settings m)"
    and "c_projectionMatrix (m_camera m) = Perspective"
    and "\<not> m_continuous m"
  shows "distance (m_state (apply_FrameEvent env m now)) =
           clamp (distance (m_state m) * 0.85) (s_min_distance (m_settings m))
             (s_max_distance (m_settings m))"
proof -
  have e: "to_seconds (now - t_time_last_service (m_task m)) = 0.1"
    by (simp add: assms(4) to_seconds_def)
  have step: "fst (serviceTask_step (m_task m) now) = Some (TASK_ZOOM, 0, - 0.15)"
    by (simp add: serviceTask_step_def Let_def e assms(1,2,3))
  obtain task' where st: "serviceTask_step (m_task m) now = (Some (TASK_ZOOM, 0, - 0.15), task')"
    using step by (cases "serviceTask_step (m_task m) now") simp
  let ?m1 = "m\<lparr>m_continuousDelta := (0.0, 0.0)\<rparr>"
  have z: "distance (m_state (zoom ?m1 0 (- 0.15))) =
             clamp (distance (m_state m) * 0.85) (s_min_distance (m_settings m))
               (s_max_distance (m_settings m))"
    using assms(5,6) by (simp add: zoom_def setDistance_def Let_def)
  have "distance (m_state (snd (serviceTask env ?m1 now))) = distance (m_state (zoom ?m1 0 (- 0.15)))"
    by (simp add: serviceTask_def st Let_def)
  then show ?thesis
    using assms(7) z by (simp add: apply_FrameEvent_def Let_def)
qed

lemma scroll_then_tick_distance:
  assumes "m_settings m = bindScroll env s0 ACTION_ZOOM_IN DIR_UP 0 []"
    and "s_scroll_sens s0 = 1" and "\<not> s_zoomToMouse s0"
    and "(case m_keyPress m of Some k \<Rightarrow> k_keyModifier k | None \<Rightarrow> 0) = 0"
    and "c_projectionMatrix (m_camera m) = Perspective"
    and "\<not> m_continuous m"
    and "w_delta ev = (0, - 1, z)"
  shows "distance (m_state (apply_FrameEvent env (apply_ScrollWheelEvent env m ev)
                              (w_time ev + 100000000)))
           = clamp (distance (m_state m) * 0.85) (s_min_distance s0) (s_max_distance s0)"
proof -
  let ?m1 = "apply_ScrollWheelEvent env m ev"
  have m1: "?m1 = m\<lparr>m_lastAction := mkAction ACTION_ZOOM_IN [],
              m_task := Task_set TASK_ZOOM (0, - (1.5 * s_scroll_sens s0)) 0.2 (w_time ev)\<rparr>"
    using assms(1,4,7) by (rule scroll_up_registers_zoom)
  have 1: "t_type (m_task ?m1) = TASK_ZOOM" by (simp add: m1 Task_set_def)
  have 2: "t_delta (m_task ?m1) = (0, - 1.5)" by (simp add: m1 Task_set_def assms(2))
  have 3: "t_duration_s (m_task ?m1) = 0.2" by (simp add: m1 Task_set_def)
  have 4: "w_time ev + 100000000 = t_time_last_service (m_task ?m1) + 100000000"
    by (simp add: m1 Task_set_def)
  have 5: "\<not> s_zoomToMouse (m_settings ?m1)"
    by (simp add: m1 assms(1,3) bindScroll_fields)
  have 6: "c_projectionMatrix (m_camera ?m1) = Perspective" by (simp add: m1 assms(5))
  have 7: "\<not> m_continuous ?m1" by (simp add: m1 assms(6))
  have "distance (m_state (apply_FrameEvent env ?m1 (w_time ev + 100000000)))
          = clamp (distance (m_state ?m1) * 0.85) (s_min_distance (m_settings ?m1))
              (s_max_distance (m_settings ?m1))"
    using 1 2 3 4 5 6 7 by (rule zoom_tick)
  then show ?thesis by (simp add: m1 assms(1) bindScroll_fields)
qed

lemma example_scroll_facts:
  "m_settings (example_scroll_manipulator d)
     = bindScroll example_env (m_settings example_manipulator) ACTION_ZOOM_IN DIR_UP 0 []"
  "s_scroll_sens (m_settings example_manipulator) = 1"
  "\<not> s_zoomToMouse (m_settings example_manipulator)"
  "(case m_keyPress (example_scroll_manipulator d) of Some k \<Rightarrow> k_keyModifier k | None \<Rightarrow> 0) = 0"
  "c_projectionMatrix (m_camera (example_scroll_manipulator d)) = Perspective"
  "\<not> m_continuous (example_scroll_manipulator d)"
  "w_delta example_scroll_up = (0, - 1, 0)"
  "w_time example_scroll_up = 0"
  "distance (m_state (example_scroll_manipulator d)) = d"
  "s_min_distance (m_settings example_manipulator) = 1"
  "s_max_distance (m_settings example_manipulator) = DBL_MAX"
  by (simp_all add: example_scroll_manipulator_def example_manipulator_def example_scroll_up_def
      Settings_init_def)

lemma DBL_MAX_large: "10 < DBL_MAX"
proof -
  have "(2 :: real) ^ 4 \<le> 2 ^ 1023" by (rule power_increasing) simp_all
  moreover have "(1 :: real) \<le> 2 - 1 / 2 ^ 52" by simp
  ultimately have "1 * (2 :: real) ^ 4 \<le> (2 - 1 / 2 ^ 52) * 2 ^ 1023"
    by (intro mult_mono) simp_all
  then show ?thesis by (simp add: DBL_MAX_def)
qed

text \<open>
  C7, as stated, fails in its last part: the zoom ends in \<open>setDistance\<close>, which clamps. With
  the default minimum distance 1 and the camera already at distance 1, the scroll registers
  the zoom task, and the frame tick 0.1 s later leaves the distance at 1.
\<close>

theorem scroll_zoom_at_min_distance_counterexample:
  "t_type (m_task (apply_ScrollWheelEvent example_env (example_scroll_manipulator 1)
                     example_scroll_up)) = TASK_ZOOM \<and>
   \<not> distance (m_state (apply_FrameEvent example_env
          (apply_ScrollWheelEvent example_env (example_scroll_manipulator 1) example_scroll_up)
          (w_time example_scroll_up + 100000000)))
       < distance (m_state (example_scroll_manipulator 1))"
proof -
  have "apply_ScrollWheelEvent example_env (example_scroll_manipulator 1) example_scroll_up =
          (example_scroll_manipulator 1)\<lparr>m_lastAction := mkAction ACTION_ZOOM_IN [],
              m_task := Task_set TASK_ZOOM (0, - (1.5 * s_scroll_sens (m_settings example_manipulator)))
                          0.2 (w_time example_scroll_up)\<rparr>"
    using example_scroll_facts(1,4,7) by (rule scroll_up_registers_zoom)
  then have t: "t_type (m_task (apply_ScrollWheelEvent example_env (example_scroll_manipulator 1)
                     example_scroll_up)) = TASK_ZOOM"
    by (simp add: Task_set_def)
  have "distance (m_state (apply_FrameEvent example_env
          (apply_ScrollWheelEvent example_env (example_scroll_manipulator 1) example_scroll_up)
          (w_time example_scroll_up + 100000000)))
        = clamp (distance (m_state (example_scroll_manipulator 1)) * 0.85)
            (s_min_distance (m_settings example_manipulator))
            (s_max_distance (m_settings example_manipulator))"
    using example_scroll_facts(1-7) by (rule scroll_then_tick_distance)
  then have "distance (m_state (apply_FrameEvent example_env
          (apply_ScrollWheelEvent example_env (example_scroll_manipulator 1) example_scroll_up)
          (w_time example_scroll_up + 100000000))) = 1"
    by (simp add: example_scroll_facts clamp_def)
  then show ?thesis using t by (simp add: example_scroll_facts)
qed

text \<open>
  C7, amended: with \<open>(scroll, up)\<close> bound to \<open>ZOOM_IN\<close> at modifier mask 0 without options,
  scroll sensitivity 1, zoom-to-mouse off, a perspective projection, no key modifier held
  and no continuous gesture active, a scroll event with \<open>delta.x = 0\<close>, \<open>delta.y = -1\<close>
  resolves to the bound action (direction up) and registers a task of type zoom with rate \<open>(0, -1.5)\<close> and duration 0.2 s and leaves the
  pose as it is. A frame tick 0.1 s later sets the distance to
  \<open>clamp(0.85 * d, min-distance, max-distance)\<close>, \<open>d\<close> the distance before the scroll: strictly
  less than \<open>d\<close> when \<open>d\<close> is positive and above the minimum distance, and equal to \<open>d\<close>
  when \<open>d\<close> is positive and equal to the minimum distance.
\<close>

theorem scroll_zoom_in_then_tick:
  assumes "m_settings m = bindScroll env s0 ACTION_ZOOM_IN DIR_UP 0 []"
    and "s_scroll_sens s0 = 1" and "\<not> s_zoomToMouse s0"
    and "(case m_keyPress m of Some k \<Rightarrow> k_keyModifier k | None \<Rightarrow> 0) = 0"
    and "c_projectionMatrix (m_camera m) = Perspective"
    and "\<not> m_continuous m"
    and "w_delta ev = (0, - 1, z)"
    and "m1 = apply_ScrollWheelEvent env m ev"
    and "m2 = apply_FrameEvent env m1 (w_time ev + 100000000)"
  shows "m_task m1 = Task_set TASK_ZOOM (0, - 1.5) 0.2 (w_time ev) \<and>
         m_state m1 = m_state m \<and>
         distance (m_state m2)
           = clamp (distance (m_state m) * 0.85) (s_min_distance s0) (s_max_distance s0) \<and>
         (0 < distance (m_state m) \<and> s_min_distance s0 < distance (m_state m)
            \<longrightarrow> distance (m_state m2) < distance (m_state m)) \<and>
         (0 < distance (m_state m) \<and> distance (m_state m) = s_min_distance s0
            \<longrightarrow> distance (m_state m2) = distance (m_state m)) \<and>
         m_lastAction m1 = mkAction ACTION_ZOOM_IN []"
proof -
  have m1: "m1 = m\<lparr>m_lastAction := mkAction ACTION_ZOOM_IN [],
              m_task := Task_set TASK_ZOOM (0, - (1.5 * s_scroll_sens s0)) 0.2 (w_time ev)\<rparr>"
    unfolding assms(8) using assms(1,4,7) by (rule scroll_up_registers_zoom)
  have a: "m_task m1 = Task_set TASK_ZOOM (0, - 1.5) 0.2 (w_time ev)"
    by (simp add: m1 assms(2))
  have b: "m_state m1 = m_state m" by (simp add: m1)
  have c: "distance (m_state m2)
           = clamp (distance (m_state m) * 0.85) (s_min_distance s0) (s_max_distance s0)"
    unfolding assms(8,9) using assms(1-7) by (rule scroll_then_tick_distance)
  have d: "0 < distance (m_state m) \<and> s_min_distance s0 < distance (m_state m)
            \<longrightarrow> distance (m_state m2) < distance (m_state m)"
    by (simp add: c clamp_def)
  have e: "0 < distance (m_state m) \<and> distance (m_state m) = s_min_distance s0
            \<longrightarrow> distance (m_state m2) = distance (m_state m)"
    by (simp add: c clamp_def)
  have f: "m_lastAction m1 = mkAction ACTION_ZOOM_IN []" by (simp add: m1)
  show ?thesis by (intro conjI a b c d e f)
qed

text \<open>Witness for C7: the default settings with the binding added, at distance 10; the
  tick brings the distance to 8.5.\<close>

theorem scroll_zoom_in_then_tick_witness:
  "m_task (apply_ScrollWheelEvent example_env (example_scroll_manipulator 10) example_scroll_up)
     = Task_set TASK_ZOOM (0, - 1.5) 0.2 0 \<and>
   m_state (apply_ScrollWheelEvent example_env (example_scroll_manipulator 10) example_scroll_up)
     = m_state (example_scroll_manipulator 10) \<and>
   distance (m_state (apply_FrameEvent example_env
      (apply_ScrollWheelEvent example_env (example_scroll_manipulator 10) example_scroll_up)
      (w_time example_scroll_up + 100000000))) = 8.5 \<and>
   distance (m_state (apply_FrameEvent example_env
      (apply_ScrollWheelEvent example_env (example_scroll_manipulator 10) example_scroll_up)
      (w_time example_scroll_up + 100000000))) < distance (m_state (example_scroll_manipulator 10))"
proof -
  note T = scroll_zoom_in_then_tick [OF example_scroll_facts(1-7) refl refl, of 10]
  have pre: "0 < distance (m_state (example_scroll_manipulator 10)) \<and>
             s_min_distance (m_settings example_manipulator)
               < distance (m_state (example_scroll_manipulator 10))"
    by (simp add: example_scroll_facts)
  have 1: "m_task (apply_ScrollWheelEvent example_env (example_scroll_manipulator 10) example_scroll_up)
     = Task_set TASK_ZOOM (0, - 1.5) 0.2 0"
    using T [THEN conjunct1] by (simp add: example_scroll_facts)
  have 2: "m_state (apply_ScrollWheelEvent example_env (example_scroll_manipulator 10) example_scroll_up)
     = m_state (example_scroll_manipulator 10)"
    by (rule T [THEN conjunct2, THEN conjunct1])
  have 3: "distance (m_state (apply_FrameEvent example_env
      (apply_ScrollWheelEvent example_env (example_scroll_manipulator 10) example_scroll_up)
      (w_time example_scroll_up + 100000000))) = 8.5"
    using T [THEN conjunct2, THEN conjunct2, THEN conjunct1] DBL_MAX_large
    by (simp add: example_scroll_facts clamp_def)
  have 4: "distance (m_state (apply_FrameEvent example_env
      (apply_ScrollWheelEvent example_env (example_scroll_manipulator 10) example_scroll_up)
      (w_time example_scroll_up + 100000000))) < distance (m_state (example_scroll_manipulator 10))"
    using T [THEN conjunct2, THEN conjunct2, THEN conjunct2, THEN conjunct1] pre by (rule mp)
  show ?thesis by (intro conjI 1 2 3 4)
qed

subsection \<open>The pitch range of rotate\<close>

lemma radians_mono: "(radians a < radians b) = (a < b)"
  by (simp add: radians_def)

lemma radians_add: "radians a + radians b = radians (a + b)"
  by (simp add: radians_def algebra_simps)

lemma rotate_localRotation:
  "localRotation (m_state (rotate env m dx dy)) =
     quatMul env
       (quatMul env (localRotation (m_state m))
          (quatAngleAxis env
             (rotate_dy (m_settings m) (getEulerAngles_pitch env (localRotation (m_state m))) dy)
             (getXAxis (quatRotate env (localRotation (m_state m))))))
       (quatAngleAxis env (- dx) (0, 0, 1))"
  by (simp add: rotate_def Let_def)

lemma rotate_dy_range:
  assumes "radians (min (s_min_pitch s) (- 89.9)) \<le> oldPitch"
    and "oldPitch \<le> radians (max (s_max_pitch s) (- 0.1))"
  shows "radians (min (s_min_pitch s) (- 89.9)) \<le> oldPitch + rotate_dy s oldPitch dy \<and>
         oldPitch + rotate_dy s oldPitch dy \<le> radians (max (s_max_pitch s) (- 0.1))"
  using assms by (auto simp: rotate_dy_def Let_def)

text \<open>
  C1: the claim keeps the pitch in \<open>[minPitch, max(maxPitch, -0.1\<degree>)]\<close> and has \<open>rotate\<close> drop
  \<open>dy\<close> whenever \<open>oldPitch + dy\<close> would leave that interval. The source takes
  \<open>min(minPitch, -89.9)\<close> as the lower bound, and the setter never stores a minimum below
  \<open>-89.9\<close>, so the minimum pitch of the settings is never enforced. After
  \<open>setMinMaxPitch(-45, -10)\<close>, with the pitch at \<open>-45\<degree>\<close>, a request of \<open>dy = -10\<degree>\<close> would take
  the pitch to \<open>-55\<degree>\<close>, below the minimum; the range test lets it through unchanged.
  (\<open>rotate_dy_range\<close> is what the test does enforce, and \<open>rotate_localRotation\<close> shows
  that the tested \<open>dy\<close> is the elevation angle that \<open>rotate\<close> applies.)
\<close>

theorem rotate_min_pitch_not_enforced:
  "s_min_pitch (setMinMaxPitch Settings_init (- 45) (- 10)) = - 45 \<and>
   s_max_pitch (setMinMaxPitch Settings_init (- 45) (- 10)) = - 10 \<and>
   radians (- 10) + radians (- 45)
     < radians (s_min_pitch (setMinMaxPitch Settings_init (- 45) (- 10))) \<and>
   rotate_dy (setMinMaxPitch Settings_init (- 45) (- 10)) (radians (- 45)) (radians (- 10))
     = radians (- 10) \<and>
   radians (- 10) \<noteq> 0"
proof -
  let ?s = "setMinMaxPitch Settings_init (- 45) (- 10)"
  have mn: "s_min_pitch ?s = - 45"
    by (simp add: setMinMaxPitch_def dirty_def clamp_def)
  have mx: "s_max_pitch ?s = - 10"
    by (simp add: setMinMaxPitch_def dirty_def clamp_def)
  have below: "radians (- 10) + radians (- 45) < radians (s_min_pitch ?s)"
    by (simp add: mn radians_add radians_mono)
  have lo: "\<not> radians (- 10) + radians (- 45) < radians (min (- 45) (- 89.9))"
    by (simp add: radians_add radians_mono)
  have hi: "\<not> radians (max (- 10) (- 0.1)) < radians (- 10) + radians (- 45)"
    by (simp add: radians_add radians_mono)
  have dy: "rotate_dy ?s (radians (- 45)) (radians (- 10)) = radians (- 10)"
    unfolding rotate_dy_def Let_def mn mx using lo hi by simp
  have nz: "radians (- 10) \<noteq> 0" by (simp add: radians_def)
  show ?thesis by (intro conjI mn mx below dy nz)
qed

subsection \<open>Panning\<close>

lemma vec3_eta: "(vx v, vy v, vz v) = v"
  by (simp add: vx_def vy_def vz_def)





















subsection \<open>Rounding\<close>

lemma round_half_even_floor:
  assumes "\<lfloor>x\<rfloor> = f"
  shows "round_half_even x =
           (if x - real_of_int f < 1 / 2 then f else if 1 / 2 < x - real_of_int f then f + 1
            else if even f then f else f + 1)"
  unfolding round_half_even_def Let_def assms ..

lemma round_half_even_cases:
  "round_half_even x = \<lfloor>x\<rfloor> \<or> round_half_even x = \<lfloor>x\<rfloor> + 1"
  by (simp add: round_half_even_def Let_def)

lemma round_half_even_error: "\<bar>real_of_int (round_half_even x) - x\<bar> \<le> 1 / 2"
proof -
  define f where "f = \<lfloor>x\<rfloor>"
  have b: "real_of_int f \<le> x" "x < real_of_int f + 1" unfolding f_def by linarith+
  have r: "round_half_even x =
           (if x - real_of_int f < 1 / 2 then f else if 1 / 2 < x - real_of_int f then f + 1
            else if even f then f else f + 1)"
    by (rule round_half_even_floor) (simp add: f_def)
  show ?thesis
  proof (cases "x - real_of_int f < 1 / 2")
    case True
    then have "round_half_even x = f" by (simp add: r)
    then show ?thesis using b True by simp
  next
    case False
    note nl = this
    show ?thesis
    proof (cases "1 / 2 < x - real_of_int f")
      case True
      then have "round_half_even x = f + 1" using nl by (simp add: r)
      then show ?thesis using b True by simp
    next
      case False
      then have h: "x - real_of_int f = 1 / 2" using nl by linarith
      have "round_half_even x = f \<or> round_half_even x = f + 1" by (simp add: r)
      then show ?thesis using h by auto
    qed
  qed
qed

lemma round_half_even_of_int: "round_half_even (real_of_int k) = k"
  by (simp add: round_half_even_def Let_def)

lemma round_half_even_eqI:
  assumes "real_of_int k - 1 / 2 < x" and "x < real_of_int k + 1 / 2"
  shows "round_half_even x = k"
proof -
  have "\<bar>real_of_int (round_half_even x) - x\<bar> \<le> 1 / 2" by (rule round_half_even_error)
  then have "\<bar>real_of_int (round_half_even x) - real_of_int k\<bar> < 1" using assms by linarith
  then have "\<bar>real_of_int (round_half_even x - k)\<bar> < 1" by simp
  then have "\<bar>round_half_even x - k\<bar> < 1" by linarith
  then show ?thesis by linarith
qed

lemma round_half_even_tie_up:
  assumes "x = real_of_int k - 1 / 2" and "even k"
  shows "round_half_even x = k"
proof -
  have f: "\<lfloor>x\<rfloor> = k - 1" unfolding assms(1) by linarith
  have d: "x - real_of_int (k - 1) = 1 / 2" unfolding assms(1) by simp
  have o: "odd (k - 1)" using assms(2) by simp
  show ?thesis unfolding round_half_even_floor [OF f] d using o by simp
qed

lemma round_half_even_tie_down:
  assumes "x = real_of_int k + 1 / 2" and "even k"
  shows "round_half_even x = k"
proof -
  have f: "\<lfloor>x\<rfloor> = k" unfolding assms(1) by linarith
  have d: "x - real_of_int k = 1 / 2" unfolding assms(1) by simp
  show ?thesis unfolding round_half_even_floor [OF f] d using assms(2) by simp
qed

lemma round_half_even_mono:
  assumes "x \<le> y"
  shows "round_half_even x \<le> round_half_even y"
proof (cases "\<lfloor>x\<rfloor> = \<lfloor>y\<rfloor>")
  case True
  then show ?thesis using assms by (auto simp: round_half_even_def Let_def)
next
  case False
  then have "\<lfloor>x\<rfloor> < \<lfloor>y\<rfloor>" using assms floor_mono [of x y] by linarith
  moreover have "round_half_even x \<le> \<lfloor>x\<rfloor> + 1" using round_half_even_cases [of x] by linarith
  moreover have "\<lfloor>y\<rfloor> \<le> round_half_even y" using round_half_even_cases [of y] by linarith
  ultimately show ?thesis by linarith
qed

lemma binade_bounds:
  assumes "x \<noteq> 0"
  shows "2 powr real_of_int (binade x) \<le> \<bar>x\<bar>" and "\<bar>x\<bar> < 2 powr real_of_int (binade x + 1)"
proof -
  have "0 < \<bar>x\<bar>" using assms by simp
  then have "2 powr real_of_int (binade x) \<le> \<bar>x\<bar> \<and> \<bar>x\<bar> < 2 powr real_of_int (binade x + 1)"
    using floor_log_eq_powr_iff [of "\<bar>x\<bar>" 2 "binade x"] by (simp add: binade_def)
  then show "2 powr real_of_int (binade x) \<le> \<bar>x\<bar>" and "\<bar>x\<bar> < 2 powr real_of_int (binade x + 1)"
    by simp_all
qed

lemma binade_eqI:
  assumes "2 powr real_of_int e \<le> \<bar>x\<bar>" and "\<bar>x\<bar> < 2 powr real_of_int (e + 1)"
  shows "binade x = e"
proof -
  have "0 < 2 powr real_of_int e" by simp
  then have "0 < \<bar>x\<bar>" using assms(1) by linarith
  then show ?thesis
    using floor_log_eq_powr_iff [of "\<bar>x\<bar>" 2 e] assms by (simp add: binade_def)
qed


lemma binade_ge:
  assumes "x \<noteq> 0" and "2 powr real_of_int e \<le> \<bar>x\<bar>"
  shows "e \<le> binade x"
proof (rule ccontr)
  assume "\<not> e \<le> binade x"
  then have "binade x + 1 \<le> e" by simp
  then have "(2 :: real) powr real_of_int (binade x + 1) \<le> 2 powr real_of_int e"
    by simp
  then show False using binade_bounds(2) [OF assms(1)] assms(2) by linarith
qed

lemma binade_lt:
  assumes "x \<noteq> 0" and "\<bar>x\<bar> < 2 powr real_of_int e"
  shows "binade x < e"
proof (rule ccontr)
  assume "\<not> binade x < e"
  then have "e \<le> binade x" by simp
  then have "(2 :: real) powr real_of_int e \<le> 2 powr real_of_int (binade x)"
    by simp
  then show False using binade_bounds(1) [OF assms(1)] assms(2) by linarith
qed


lemma two_powr_nat: "2 powr real_of_int (a + int n) = 2 powr real_of_int a * 2 ^ n"
  by (simp add: powr_add powr_realpow)

lemma ulp_pos: "0 < ulp p emin x"
  by (simp add: ulp_def)

lemma ulp_times: "ulp p emin x * 2 ^ p = 2 powr real_of_int (max (binade x) emin + 1)"
proof -
  have "max (binade x) emin + 1 = (max (binade x) emin - int p + 1) + int p" by simp
  then show ?thesis unfolding ulp_def by (simp only: two_powr_nat)
qed

lemma ulp_times_half: "ulp p emin x * (2 ^ p / 2) = 2 powr real_of_int (max (binade x) emin)"
proof -
  have "2 powr real_of_int (max (binade x) emin + 1) = 2 powr real_of_int (max (binade x) emin) * 2"
    using two_powr_nat [of "max (binade x) emin" 1] by simp
  then have "ulp p emin x * 2 ^ p = 2 powr real_of_int (max (binade x) emin) * 2"
    by (simp only: ulp_times)
  then show ?thesis by simp
qed



lemma scaled_ge:
  assumes "x \<noteq> 0" and "emin \<le> binade x"
  shows "2 ^ p / 2 \<le> \<bar>x\<bar> / ulp p emin x"
proof -
  have "max (binade x) emin = binade x" using assms(2) by simp
  then have "ulp p emin x * (2 ^ p / 2) \<le> \<bar>x\<bar>"
    using binade_bounds(1) [OF assms(1)] by (simp only: ulp_times_half)
  then show ?thesis using ulp_pos [of p emin x] by (simp add: pos_le_divide_eq mult.commute)
qed

lemma round_to_zero: "round_to p emin 0 = 0"
  by (simp add: round_to_def)

lemma round_to_nonzero:
  "x \<noteq> 0 \<Longrightarrow> round_to p emin x = real_of_int (round_half_even (x / ulp p emin x)) * ulp p emin x"
  by (simp add: round_to_def)

text \<open>The result is within half a spacing of the argument.\<close>

lemma round_to_error_ulp: "\<bar>round_to p emin x - x\<bar> \<le> ulp p emin x / 2"
proof (cases "x = 0")
  case True
  then show ?thesis using ulp_pos [of p emin x] by (simp add: round_to_def)
next
  case False
  define u where "u = ulp p emin x"
  have u: "0 < u" by (simp add: u_def ulp_pos)
  have r: "round_to p emin x = real_of_int (round_half_even (x / u)) * u"
    unfolding u_def using False by (rule round_to_nonzero)
  have "\<bar>real_of_int (round_half_even (x / u)) - x / u\<bar> \<le> 1 / 2" by (rule round_half_even_error)
  then have "\<bar>real_of_int (round_half_even (x / u)) - x / u\<bar> * u \<le> 1 / 2 * u"
    using u by (simp only: mult_le_cancel_right_pos)
  moreover have "\<bar>real_of_int (round_half_even (x / u)) - x / u\<bar> * u = \<bar>round_to p emin x - x\<bar>"
  proof -
    have "\<bar>real_of_int (round_half_even (x / u)) - x / u\<bar> * u
            = \<bar>(real_of_int (round_half_even (x / u)) - x / u) * u\<bar>"
      using u by (simp add: abs_mult)
    also have "(real_of_int (round_half_even (x / u)) - x / u) * u = round_to p emin x - x"
      using u by (simp add: r left_diff_distrib)
    finally show ?thesis .
  qed
  ultimately show ?thesis unfolding u_def by simp
qed

text \<open>In the normal range the relative error is at most \<open>2^-p\<close>; everywhere the error is
  at most that or half the least spacing.\<close>

lemma round_to_error_normal:
  assumes "2 powr real_of_int emin \<le> \<bar>x\<bar>"
  shows "\<bar>round_to p emin x - x\<bar> \<le> \<bar>x\<bar> / 2 ^ p"
proof -
  have "0 < (2 :: real) powr real_of_int emin" by simp
  then have x: "x \<noteq> 0" using assms by auto
  have b: "emin \<le> binade x" using x assms by (rule binade_ge)
  have "2 ^ p / 2 \<le> \<bar>x\<bar> / ulp p emin x" using x b by (rule scaled_ge)
  then have "ulp p emin x * (2 ^ p / 2) \<le> \<bar>x\<bar>"
    using ulp_pos [of p emin x] by (simp add: pos_le_divide_eq mult.commute)
  then have "ulp p emin x / 2 \<le> \<bar>x\<bar> / 2 ^ p" by (simp add: field_simps)
  then show ?thesis using round_to_error_ulp [of p emin x] by linarith
qed


lemma round_half_even_nonneg: "0 \<le> x \<Longrightarrow> 0 \<le> round_half_even x"
  using round_half_even_mono [of 0 x] round_half_even_of_int [of 0] by simp

lemma round_half_even_nonpos: "x \<le> 0 \<Longrightarrow> round_half_even x \<le> 0"
  using round_half_even_mono [of x 0] round_half_even_of_int [of 0] by simp

lemma round_to_nonneg:
  assumes "0 \<le> x"
  shows "0 \<le> round_to p emin x"
proof (cases "x = 0")
  case True
  then show ?thesis by (simp add: round_to_zero)
next
  case False
  have "0 \<le> x / ulp p emin x" using assms ulp_pos [of p emin x] by simp
  then have "0 \<le> round_half_even (x / ulp p emin x)" by (rule round_half_even_nonneg)
  then have "0 \<le> real_of_int (round_half_even (x / ulp p emin x)) * ulp p emin x"
    using ulp_pos [of p emin x] by simp
  then show ?thesis by (simp only: round_to_nonzero [OF False])
qed

lemma round_to_nonpos:
  assumes "x \<le> 0"
  shows "round_to p emin x \<le> 0"
proof (cases "x = 0")
  case True
  then show ?thesis by (simp add: round_to_zero)
next
  case False
  have "x / ulp p emin x \<le> 0" using assms ulp_pos [of p emin x] by (simp add: divide_le_0_iff)
  then have "round_half_even (x / ulp p emin x) \<le> 0" by (rule round_half_even_nonpos)
  then have "real_of_int (round_half_even (x / ulp p emin x)) * ulp p emin x \<le> 0"
    using ulp_pos [of p emin x] by (simp add: mult_le_0_iff)
  then show ?thesis by (simp only: round_to_nonzero [OF False])
qed







text \<open>The numbers of the format are fixed points.\<close>

lemma round_to_fix:
  fixes k :: int
  assumes "0 < p" and "emin \<le> e" and "\<bar>k\<bar> < 2 ^ p" and "2 ^ (p - 1) \<le> \<bar>k\<bar> \<or> e = emin"
  shows "round_to p emin (real_of_int k * 2 powr real_of_int (e - int p + 1))
           = real_of_int k * 2 powr real_of_int (e - int p + 1)"
proof (cases "k = 0")
  case True
  then show ?thesis by (simp add: round_to_zero)
next
  case False
  define u :: real where "u = 2 powr real_of_int (e - int p + 1)"
  define y where "y = real_of_int k * u"
  have u: "0 < u" by (simp add: u_def)
  have y: "y \<noteq> 0" using False u by (simp add: y_def)
  have ay: "\<bar>y\<bar> = real_of_int \<bar>k\<bar> * u" using u by (simp add: y_def abs_mult)
  have half: "u * 2 ^ (p - 1) = 2 powr real_of_int e"
  proof -
    have "e = (e - int p + 1) + int (p - 1)" using assms(1) by simp
    then have "2 powr real_of_int e = 2 powr real_of_int ((e - int p + 1) + int (p - 1))" by simp
    then show ?thesis unfolding u_def by (simp only: two_powr_nat)
  qed
  have full: "u * 2 ^ p = 2 powr real_of_int (e + 1)"
  proof -
    have "e + 1 = (e - int p + 1) + int p" by simp
    then have "2 powr real_of_int (e + 1) = 2 powr real_of_int ((e - int p + 1) + int p)" by simp
    then show ?thesis unfolding u_def by (simp only: two_powr_nat)
  qed
  have m: "max (binade y) emin = e"
  proof (cases "2 ^ (p - 1) \<le> \<bar>k\<bar>")
    case True
    then have "real_of_int (2 ^ (p - 1)) \<le> real_of_int \<bar>k\<bar>" by (simp only: of_int_le_iff)
    then have "2 ^ (p - 1) * u \<le> real_of_int \<bar>k\<bar> * u" using u by simp
    then have lo: "2 powr real_of_int e \<le> \<bar>y\<bar>" using half by (simp add: ay mult.commute)
    have "real_of_int \<bar>k\<bar> < real_of_int (2 ^ p)" using assms(3) by (simp only: of_int_less_iff)
    then have "real_of_int \<bar>k\<bar> * u < 2 ^ p * u" using u by simp
    then have hi: "\<bar>y\<bar> < 2 powr real_of_int (e + 1)" using full by (simp add: ay mult.commute)
    have "binade y = e" using lo hi by (rule binade_eqI)
    then show ?thesis using assms(2) by simp
  next
    case False
    then have e: "e = emin" using assms(4) by simp
    have "\<bar>k\<bar> < 2 ^ (p - 1)" using False by linarith
    then have "real_of_int \<bar>k\<bar> < real_of_int (2 ^ (p - 1))" by (simp only: of_int_less_iff)
    then have "real_of_int \<bar>k\<bar> * u < 2 ^ (p - 1) * u" using u by simp
    then have "\<bar>y\<bar> < 2 powr real_of_int e" using half by (simp add: ay mult.commute)
    with y have "binade y < e" by (rule binade_lt)
    then show ?thesis using e by simp
  qed
  have ul: "ulp p emin y = u" by (simp add: ulp_def m u_def)
  have "y / u = real_of_int k" using u by (simp add: y_def)
  then have "round_half_even (y / ulp p emin y) = k" by (simp only: ul round_half_even_of_int)
  then have "round_to p emin y = real_of_int k * u" by (simp only: round_to_nonzero [OF y] ul)
  then show ?thesis by (simp only: y_def u_def)
qed


text \<open>The numbers of the format are integer multiples of the least spacing, and such a
  multiple below \<open>2^emin\<close> is a number of the format.\<close>

lemma round_to_multiple:
  assumes "0 < p" and "round_to p emin a = a"
  shows "\<exists>j :: int. a = real_of_int j * 2 powr real_of_int (emin - int p + 1)"
proof (cases "a = 0")
  case True
  then have "a = real_of_int 0 * 2 powr real_of_int (emin - int p + 1)" by simp
  then show ?thesis by (rule exI)
next
  case False
  define e where "e = max (binade a) emin"
  define k where "k = round_half_even (a / ulp p emin a)"
  define n where "n = nat (e - emin)"
  have e: "emin \<le> e" by (simp add: e_def)
  have "round_to p emin a = real_of_int k * 2 powr real_of_int (e - int p + 1)"
    by (simp only: round_to_nonzero [OF False] k_def e_def ulp_def)
  then have a: "a = real_of_int k * 2 powr real_of_int (e - int p + 1)" by (simp only: assms(2))
  have "e - int p + 1 = (emin - int p + 1) + int n" using e by (simp add: n_def)
  then have "2 powr real_of_int (e - int p + 1) = 2 powr real_of_int (emin - int p + 1) * 2 ^ n"
    by (simp only: two_powr_nat)
  then have "a = real_of_int (k * 2 ^ n) * 2 powr real_of_int (emin - int p + 1)"
    by (simp add: a)
  then show ?thesis by (rule exI)
qed

lemma round_to_multiple_error:
  fixes j :: int
  assumes "0 < p" and "x = real_of_int j * 2 powr real_of_int (emin - int p + 1)"
  shows "\<bar>round_to p emin x - x\<bar> \<le> \<bar>x\<bar> / 2 ^ p"
proof (cases "2 powr real_of_int emin \<le> \<bar>x\<bar>")
  case True
  then show ?thesis by (rule round_to_error_normal)
next
  case False
  define m :: real where "m = 2 powr real_of_int (emin - int p + 1)"
  have m: "0 < m" by (simp add: m_def)
  have "emin = (emin - int p + 1) + int (p - 1)" using assms(1) by simp
  then have "2 powr real_of_int emin = 2 powr real_of_int ((emin - int p + 1) + int (p - 1))" by simp
  then have half: "2 powr real_of_int emin = m * 2 ^ (p - 1)" unfolding m_def by (simp only: two_powr_nat)
  have "\<bar>x\<bar> = real_of_int \<bar>j\<bar> * m" using m by (simp add: assms(2) m_def abs_mult)
  then have "real_of_int \<bar>j\<bar> * m < 2 ^ (p - 1) * m" using False half by (simp add: mult.commute)
  then have "real_of_int \<bar>j\<bar> < real_of_int (2 ^ (p - 1))" using m by simp
  then have "\<bar>j\<bar> < 2 ^ (p - 1)" by (simp only: of_int_less_iff)
  moreover have "(2 :: int) ^ (p - 1) \<le> 2 ^ p" by (rule power_increasing) simp_all
  ultimately have 3: "\<bar>j\<bar> < 2 ^ p" by linarith
  have "round_to p emin (real_of_int j * 2 powr real_of_int (emin - int p + 1))
           = real_of_int j * 2 powr real_of_int (emin - int p + 1)"
    using assms(1) _ 3 by (rule round_to_fix) simp_all
  then have "round_to p emin x = x" by (simp only: assms(2))
  then show ?thesis by simp
qed


lemma round_to_sum_error:
  assumes "0 < p" and "round_to p emin a = a" and "round_to p emin b = b"
  shows "\<bar>round_to p emin (a + b) - (a + b)\<bar> \<le> \<bar>a + b\<bar> / 2 ^ p"
proof -
  obtain ja :: int where a: "a = real_of_int ja * 2 powr real_of_int (emin - int p + 1)"
    using round_to_multiple [OF assms(1,2)] by blast
  obtain jb :: int where b: "b = real_of_int jb * 2 powr real_of_int (emin - int p + 1)"
    using round_to_multiple [OF assms(1,3)] by blast
  have "a + b = real_of_int (ja + jb) * 2 powr real_of_int (emin - int p + 1)"
    by (subst a, subst b) (simp add: distrib_right)
  with assms(1) show ?thesis by (rule round_to_multiple_error)
qed


subsection \<open>Rounding to double precision\<close>





lemma round_double_nonneg: "0 \<le> x \<Longrightarrow> 0 \<le> round_double x"
  unfolding round_double_def by (rule round_to_nonneg)










subsection \<open>Task decay\<close>


























end
